theory Spec2Isabelle
  imports Main "HOL-Library.Multiset" "HOL-Library.Product_Lexorder"
begin

section \<open>Byte strings and the string helpers of the Go library\<close>

text \<open>
  A Go \<open>string\<close> and a \<open>[]byte\<close> are sequences of bytes; both are modelled as
  \<open>string\<close> (a list of 8-bit characters). The helpers below follow the functions of
  the packages \<open>strings\<close>, \<open>bytes\<close> and \<open>bufio\<close> that \<open>main.go\<close> calls.
\<close>

abbreviation NL :: char where
  "NL \<equiv> CHR 0x0A"

definition HasPrefix :: "string \<Rightarrow> string \<Rightarrow> bool" where
  "HasPrefix s p = (take (length p) s = p)"

definition HasSuffix :: "string \<Rightarrow> string \<Rightarrow> bool" where
  "HasSuffix s p = (length p \<le> length s \<and> drop (length s - length p) s = p)"

definition TrimSuffix :: "string \<Rightarrow> string \<Rightarrow> string" where
  "TrimSuffix s p = (if HasSuffix s p then take (length s - length p) s else s)"

text \<open>\<open>Index s sep\<close>: the position of the first occurrence of \<open>sep\<close>, or \<open>-1\<close>.\<close>

fun Index :: "string \<Rightarrow> string \<Rightarrow> int" where
  "Index [] sep = (if sep = [] then 0 else -1)"
| "Index (c # cs) sep =
     (if HasPrefix (c # cs) sep then 0
      else (let i = Index cs sep in if i < 0 then -1 else i + 1))"

text \<open>
  The loop of \<open>genSplit\<close>: cut at the first occurrence of the separator, at most \<open>k\<close>
  times; what remains is the last piece. The separator is never empty at the call sites.
\<close>

fun split_upto :: "nat \<Rightarrow> string \<Rightarrow> string \<Rightarrow> string list" where
  "split_upto 0 s sep = [s]"
| "split_upto (Suc k) s sep =
     (let m = Index s sep in
      if m < 0 then [s]
      else take (nat m) s # split_upto k (drop (nat m + length sep) s) sep)"

text \<open>
  \<open>bytes.SplitN(s, sep, n)\<close>: no piece for \<open>n = 0\<close>, every piece for \<open>n < 0\<close>
  (a nonempty separator occurs at most \<open>len(s)\<close> times), else at most \<open>n\<close> pieces,
  with \<open>n\<close> capped at \<open>len(s) + 1\<close> as the library does.
\<close>

definition SplitN :: "string \<Rightarrow> string \<Rightarrow> int \<Rightarrow> string list" where
  "SplitN s sep n =
     (if n = 0 then []
      else if n < 0 then split_upto (length s) s sep
      else split_upto (min (nat n) (length s + 1) - 1) s sep)"

definition Split :: "string \<Rightarrow> string \<Rightarrow> string list" where
  "Split s sep = SplitN s sep (-1)"

text \<open>
  \<open>strings.TrimSpace\<close> removes leading and trailing white space as Unicode defines it.
  On the UTF-8 bytes of a string that is: the six ASCII space bytes, and the encodings
  of U+0085, U+00A0, U+1680, U+2000 to U+200A, U+2028, U+2029, U+202F, U+205F and
  U+3000. \<open>space_prefix s\<close> is the width in bytes of a white-space rune at the start
  of \<open>s\<close> (0 when there is none), \<open>space_suffix\<close> that of one at its end.
\<close>

definition asciiSpace :: "char \<Rightarrow> bool" where
  "asciiSpace c = (c = CHR 0x09 \<or> c = NL \<or> c = CHR 0x0B \<or> c = CHR 0x0C \<or> c = CHR 0x0D \<or> c = CHR '' '')"

definition thin_space_byte :: "char \<Rightarrow> bool" where
  "thin_space_byte c =
     (c \<in> set [CHR 0x80, CHR 0x81, CHR 0x82, CHR 0x83, CHR 0x84, CHR 0x85, CHR 0x86,
                CHR 0x87, CHR 0x88, CHR 0x89, CHR 0x8A, CHR 0xA8, CHR 0xA9, CHR 0xAF])"

fun space_prefix :: "string \<Rightarrow> nat" where
  "space_prefix [] = 0"
| "space_prefix [a] = (if asciiSpace a then 1 else 0)"
| "space_prefix [a, b] =
     (if asciiSpace a then 1
      else if a = CHR 0xC2 \<and> (b = CHR 0x85 \<or> b = CHR 0xA0) then 2 else 0)"
| "space_prefix (a # b # c # _) =
     (if asciiSpace a then 1
      else if a = CHR 0xC2 \<and> (b = CHR 0x85 \<or> b = CHR 0xA0) then 2
      else if a = CHR 0xE1 \<and> b = CHR 0x9A \<and> c = CHR 0x80 then 3
      else if a = CHR 0xE2 \<and> b = CHR 0x80 \<and> thin_space_byte c then 3
      else if a = CHR 0xE2 \<and> b = CHR 0x81 \<and> c = CHR 0x9F then 3
      else if a = CHR 0xE3 \<and> b = CHR 0x80 \<and> c = CHR 0x80 then 3
      else 0)"

text \<open>The same for the end of a string, on the reversed string \<open>r\<close>.\<close>

definition space_suffix_rev :: "string \<Rightarrow> nat" where
  "space_suffix_rev r =
     (if space_prefix (take 1 r) = 1 then 1
      else if space_prefix (rev (take 2 r)) = 2 then 2
      else if space_prefix (rev (take 3 r)) = 3 then 3
      else 0)"

fun TrimLeftSpace :: "string \<Rightarrow> string" where
  "TrimLeftSpace [] = []"
| "TrimLeftSpace (c # cs) =
     (if space_prefix (c # cs) = 0 then c # cs
      else TrimLeftSpace (drop (space_prefix (c # cs) - 1) cs))"

fun trim_space_rev :: "string \<Rightarrow> string" where
  "trim_space_rev [] = []"
| "trim_space_rev (c # cs) =
     (if space_suffix_rev (c # cs) = 0 then c # cs
      else trim_space_rev (drop (space_suffix_rev (c # cs) - 1) cs))"

definition TrimRightSpace :: "string \<Rightarrow> string" where
  "TrimRightSpace s = rev (trim_space_rev (rev s))"

definition TrimSpace :: "string \<Rightarrow> string" where
  "TrimSpace s = TrimRightSpace (TrimLeftSpace s)"

text \<open>
  \<open>strings.Trim(s, cutset)\<close> for a cutset of ASCII bytes: leading and trailing bytes
  of the cutset are removed.
\<close>

definition Trim :: "string \<Rightarrow> string \<Rightarrow> string" where
  "Trim s cutset =
     rev (dropWhile (\<lambda>c. c \<in> set cutset) (rev (dropWhile (\<lambda>c. c \<in> set cutset) s)))"

text \<open>\<open>strings.ReplaceAll(s, old, "")\<close> for a one-byte \<open>old\<close>: every such byte is removed.\<close>

definition RemoveAll :: "string \<Rightarrow> char \<Rightarrow> string" where
  "RemoveAll s old = filter (\<lambda>c. c \<noteq> old) s"

fun Join :: "string list \<Rightarrow> string \<Rightarrow> string" where
  "Join [] sep = []"
| "Join [x] sep = x"
| "Join (x # y # ys) sep = x @ sep @ Join (y # ys) sep"

text \<open>
  \<open>bufio.Scanner\<close> with the default split function \<open>ScanLines\<close>: the input is cut
  at each newline, a line that is not ended by a newline is delivered when it is not
  empty, and one trailing carriage return is dropped from each line. The scanner gives up
  (\<open>Scan\<close> returns false, the loop of the caller ends) at the first line that does not
  fit its buffer of \<open>MaxScanTokenSize\<close> bytes.
\<close>

fun raw_lines :: "string \<Rightarrow> string \<Rightarrow> string list" where
  "raw_lines cur [] = (if cur = [] then [] else [cur])"
| "raw_lines cur (c # cs) =
     (if c = NL then cur # raw_lines [] cs else raw_lines (cur @ [c]) cs)"

definition dropCR :: "string \<Rightarrow> string" where
  "dropCR l = (if l \<noteq> [] \<and> last l = CHR 0x0D then butlast l else l)"

definition MaxScanTokenSize :: nat where
  "MaxScanTokenSize = 64 * 1024"

definition scanner_lines :: "string \<Rightarrow> string list" where
  "scanner_lines input =
     map dropCR (takeWhile (\<lambda>l. length l < MaxScanTokenSize) (raw_lines [] input))"

section \<open>The frontmatter parser\<close>

text \<open>
  A Go \<open>map[string]string\<close> is a partial map; the nil map that \<open>parseFrontmatter\<close>
  returns when it parses nothing is \<open>None\<close>. Reading a key that is absent, or any key of
  the nil map, gives the empty string.
\<close>

type_synonym gomap = "(string \<rightharpoonup> string) option"

definition mapget :: "gomap \<Rightarrow> string \<Rightarrow> string" where
  "mapget m k = (case m of None \<Rightarrow> [] | Some f \<Rightarrow> (case f k of None \<Rightarrow> [] | Some v \<Rightarrow> v))"

definition maplen :: "gomap \<Rightarrow> nat" where
  "maplen m = (case m of None \<Rightarrow> 0 | Some f \<Rightarrow> card (dom f))"

datatype error =
    InvalidFrontmatter
  | ReadError string
  | ConvertError
  | Fatal string

definition delimiter :: string where
  "delimiter = ''---'' @ [NL]"

text \<open>The body of the scanning loop: one line updates the map, or leaves it as it is.\<close>

definition parse_line :: "(string \<rightharpoonup> string) \<Rightarrow> string \<Rightarrow> (string \<rightharpoonup> string)" where
  "parse_line meta line =
     (let idx = Index line '':'' in
      if idx > 0
      then meta(TrimSpace (take (nat idx) line) \<mapsto> TrimSpace (drop (nat (idx + 1)) line))
      else meta)"

definition parseFrontmatter :: "string \<Rightarrow> gomap \<times> string \<times> error option" where
  "parseFrontmatter content =
     (if \<not> HasPrefix content delimiter then (None, content, None)
      else
        (let parts = SplitN content delimiter 3 in
         if length parts < 3 then (None, content, Some InvalidFrontmatter)
         else (Some (foldl parse_line Map.empty (scanner_lines (parts ! 1))), parts ! 2, None)))"

text \<open>
  What the scanning loop amounts to, written without positions: a line is a pair when it
  holds a colon that is not its first byte; the key is what stands before the first colon
  and the value what stands after it, both trimmed; of several pairs with one key the last
  one counts.
\<close>

definition is_pair :: "string \<Rightarrow> bool" where
  "is_pair line = (CHR '':'' \<in> set line \<and> hd line \<noteq> CHR '':'')"

definition line_key :: "string \<Rightarrow> string" where
  "line_key line = TrimSpace (takeWhile (\<lambda>c. c \<noteq> CHR '':'') line)"

definition line_val :: "string \<Rightarrow> string" where
  "line_val line = TrimSpace (tl (dropWhile (\<lambda>c. c \<noteq> CHR '':'') line))"

definition last_pair :: "string list \<Rightarrow> string \<rightharpoonup> string" where
  "last_pair lines k =
     (case filter (\<lambda>l. is_pair l \<and> line_key l = k) (rev lines) of
        [] \<Rightarrow> None
      | l # _ \<Rightarrow> Some (line_val l))"

section \<open>Tag lists\<close>

text \<open>
  The value of the \<open>tags\<close> key is parsed by the same seven lines in
  \<open>processMarkdownFile\<close> and in two of the walks of \<open>main\<close>: brackets are trimmed
  from both ends, both quote characters are removed, the rest is split at commas, and
  the trimmed pieces that are not empty are kept in order.
\<close>

abbreviation DQ :: char where
  "DQ \<equiv> CHR 0x22"

abbreviation SQ :: char where
  "SQ \<equiv> CHR 0x27"

definition parse_tags :: "string \<Rightarrow> string list" where
  "parse_tags tagsval =
     (if tagsval \<noteq> []
      then filter (\<lambda>t. t \<noteq> [])
             (map TrimSpace (Split (RemoveAll (RemoveAll (Trim tagsval ''[]'') DQ) SQ) '',''))
      else [])"

section \<open>The notes tree\<close>

text \<open>
  The directory tree the build reads. An entry is a file with its name and contents, a
  file that cannot be read, a directory with its name and its entries in the order
  \<open>os.ReadDir\<close> lists them, or a directory that cannot be listed. Entry names are the
  names a directory listing gives: not empty, without a slash.
\<close>

datatype fsnode =
    File string string
  | Unreadable string
  | Dir string "fsnode list"
  | NoDir string

fun fs_name :: "fsnode \<Rightarrow> string" where
  "fs_name (File name _) = name"
| "fs_name (Unreadable name) = name"
| "fs_name (Dir name _) = name"
| "fs_name (NoDir name) = name"

datatype NoteNode =
  NoteNode (Name: string) (NodeURL: string) (IsDir: bool) (Children: "NoteNode list")
    (NodeTitle: string)

text \<open>
  \<open>filepath.Join(root, name)\<close> of a clean path and an entry name, and
  \<open>filepath.Rel("notes", path)\<close> of a path below \<open>notes\<close>.
\<close>

definition Join_path :: "string \<Rightarrow> string \<Rightarrow> string" where
  "Join_path root name = root @ ''/'' @ name"

definition Rel_notes :: "string \<Rightarrow> string" where
  "Rel_notes path = drop (length ''notes/'') path"

text \<open>The test at the head of the loop of \<open>buildNotesTree\<close>.\<close>

definition skipped :: "string \<Rightarrow> bool" where
  "skipped name = (HasPrefix name ''.'' \<or> name = ''images'' \<or> name = ''_index.md'')"

text \<open>The node of a markdown file that was read: its title is the name of the file unless
  the frontmatter parses and gives a title.\<close>

definition file_node :: "string \<Rightarrow> string \<Rightarrow> string \<Rightarrow> string \<Rightarrow> NoteNode" where
  "file_node root baseUrl name content =
     (let path = Join_path root name;
          (meta, body, err) = parseFrontmatter content;
          title = (if err = None \<and> mapget meta ''title'' \<noteq> [] then mapget meta ''title'' else name);
          urlPath = TrimSuffix (Rel_notes path) ''.md''
      in NoteNode name (baseUrl @ ''notes/'' @ urlPath) False [] title)"

text \<open>
  \<open>buildNotesTree root baseUrl\<close>, given the entries that \<open>os.ReadDir(root)\<close> returned.
  A directory that cannot be listed fails the call made for it, and with it the whole
  build of the tree; a markdown file that cannot be read is passed over.
\<close>

fun buildNotesTree :: "string \<Rightarrow> string \<Rightarrow> fsnode list \<Rightarrow> error + NoteNode list" where
  "buildNotesTree root baseUrl [] = Inr []"
| "buildNotesTree root baseUrl (File name content # entries) =
     (if skipped name then buildNotesTree root baseUrl entries
      else if HasSuffix name ''.md'' then
        (case buildNotesTree root baseUrl entries of
           Inl e \<Rightarrow> Inl e
         | Inr nodes \<Rightarrow> Inr (file_node root baseUrl name content # nodes))
      else buildNotesTree root baseUrl entries)"
| "buildNotesTree root baseUrl (Unreadable name # entries) =
     buildNotesTree root baseUrl entries"
| "buildNotesTree root baseUrl (Dir name children # entries) =
     (if skipped name then buildNotesTree root baseUrl entries
      else
        (case buildNotesTree (Join_path root name) baseUrl children of
           Inl e \<Rightarrow> Inl e
         | Inr sub \<Rightarrow>
             (case buildNotesTree root baseUrl entries of
                Inl e \<Rightarrow> Inl e
              | Inr nodes \<Rightarrow> Inr (NoteNode name [] True sub [] # nodes))))"
| "buildNotesTree root baseUrl (NoDir name # entries) =
     (if skipped name then buildNotesTree root baseUrl entries
      else Inl (ReadError (Join_path root name)))"

text \<open>The names of all nodes of a tree, at every depth.\<close>

fun node_names :: "NoteNode \<Rightarrow> string list" where
  "node_names (NoteNode name url dir children title) = name # concat (map node_names children)"

definition tree_names :: "NoteNode list \<Rightarrow> string list" where
  "tree_names nodes = concat (map node_names nodes)"

text \<open>The directory entries without those the loop skips, at every depth.\<close>

fun prune :: "fsnode list \<Rightarrow> fsnode list" where
  "prune [] = []"
| "prune (Dir name children # entries) =
     (if skipped name then prune entries else Dir name (prune children) # prune entries)"
| "prune (e # entries) = (if skipped (fs_name e) then prune entries else e # prune entries)"

section \<open>The heading renderer\<close>

text \<open>
  A heading node of the markdown library: its level and its attributes, each a name with
  a value that is a byte slice, a string or something else. The buffered writer is the
  text written so far. \<open>html.RenderAttributes\<close> belongs to the markdown library and is a
  parameter \<open>ra\<close>: the text it writes for a list of attributes.
\<close>

datatype attr_value = Bytes string | Str string | OtherValue

record Heading =
  Level :: int
  Attributes :: "(string \<times> attr_value) list"

text \<open>\<open>"0123456"[n.Level]\<close>: an index outside the string is a run-time panic.\<close>

definition level_digit :: "int \<Rightarrow> char option" where
  "level_digit l = (if 0 \<le> l \<and> l < 7 then Some (''0123456'' ! nat l) else None)"

definition Attribute :: "Heading \<Rightarrow> string \<Rightarrow> attr_value option" where
  "Attribute n name = map_of (Attributes n) name"

definition copy_link_button :: "string \<Rightarrow> string" where
  "copy_link_button link =
     '' <button class='' @ [DQ] @ ''copy-link-btn'' @ [DQ]
     @ '' aria-label='' @ [DQ] @ ''Copy link to this section'' @ [DQ]
     @ '' onclick='' @ [DQ] @ ''copyToClipboard('' @ [SQ] @ link @ [SQ] @ '', this)'' @ [DQ]
     @ ''><i class='' @ [DQ] @ ''fa-solid fa-link'' @ [DQ] @ ''></i></button>''"

definition renderHeading ::
  "((string \<times> attr_value) list \<Rightarrow> string) \<Rightarrow> string \<Rightarrow> Heading \<Rightarrow> bool \<Rightarrow> string option" where
  "renderHeading ra w n entering =
     (case level_digit (Level n) of
        None \<Rightarrow> None
      | Some d \<Rightarrow>
          if entering
          then Some (w @ ''<h'' @ [d] @ (if Attributes n \<noteq> [] then ra (Attributes n) else []) @ ''>'')
          else
            (let w1 =
               (case Attribute n ''id'' of
                  None \<Rightarrow> w
                | Some idAttr \<Rightarrow>
                    (let ident = (case idAttr of Bytes v \<Rightarrow> v | Str v \<Rightarrow> v | OtherValue \<Rightarrow> [])
                     in if ident \<noteq> [] \<and> (Level n = 2 \<or> Level n = 3)
                        then w @ copy_link_button (''#'' @ ident)
                        else w))
             in Some (w1 @ ''</h'' @ [d] @ ''>'')))"

text \<open>
  How the markdown library comes to call a heading function. A node renderer registers a
  function for each kind of node it renders, and the library keeps the node renderers
  with their priorities. \<open>goldmark.New\<close> starts with the renderer of the library itself,
  \<open>html.NewRenderer()\<close>, at priority 1000; an option \<open>WithNodeRenderers\<close> appends to
  the list, and so do the extensions when they are installed after the options. On the
  first rendering the library sorts the list by priority, ascending, and lets the
  renderers register from the last to the first, a function registered for a kind
  replacing the one registered before. Of the functions the renderers register only the
  one for headings is modelled.
\<close>

type_synonym heading_func = "string \<Rightarrow> Heading \<Rightarrow> bool \<Rightarrow> string option"

text \<open>The heading function of \<open>html.NewRenderer()\<close>: the tags and nothing else.\<close>

definition html_renderHeading :: "((string \<times> attr_value) list \<Rightarrow> string) \<Rightarrow> heading_func" where
  "html_renderHeading ra w n entering =
     (case level_digit (Level n) of
        None \<Rightarrow> None
      | Some d \<Rightarrow>
          if entering
          then Some (w @ ''<h'' @ [d] @ (if Attributes n \<noteq> [] then ra (Attributes n) else []) @ ''>'')
          else Some (w @ ''</h'' @ [d] @ ''>'' @ [NL]))"

record NodeRenderer =
  Priority :: int
  HeadingFunc :: "heading_func option"

text \<open>
  The node renderers of the converter that \<open>main\<close> sets up, in the order in which they
  enter the list: the renderer of the library, \<open>NewHeadingRenderer()\<close> that \<open>main\<close> adds
  at priority 1000 and whose \<open>RegisterFuncs\<close> registers \<open>renderHeading\<close> for headings,
  and the renderers of the extensions (tables, strikethrough and task lists at 500,
  highlighting at 200), which register nothing for headings.
\<close>

definition main_NodeRenderers :: "((string \<times> attr_value) list \<Rightarrow> string) \<Rightarrow> NodeRenderer list" where
  "main_NodeRenderers ra =
     [\<lparr>Priority = 1000, HeadingFunc = Some (html_renderHeading ra)\<rparr>,
      \<lparr>Priority = 1000, HeadingFunc = Some (renderHeading ra)\<rparr>,
      \<lparr>Priority = 500, HeadingFunc = None\<rparr>,
      \<lparr>Priority = 500, HeadingFunc = None\<rparr>,
      \<lparr>Priority = 500, HeadingFunc = None\<rparr>,
      \<lparr>Priority = 200, HeadingFunc = None\<rparr>]"

text \<open>
  The registration. The library sorts with \<open>sort.Slice\<close>, which on a list this short is
  an insertion sort and leaves renderers of equal priority in their order, as
  \<open>sort_key\<close> does.
\<close>

definition registered_heading :: "NodeRenderer list \<Rightarrow> heading_func option" where
  "registered_heading renderers =
     foldl (\<lambda>f r. case HeadingFunc r of Some g \<Rightarrow> Some g | None \<Rightarrow> f) None
       (rev (sort_key Priority renderers))"

text \<open>
  A heading in the output, for a heading function \<open>f\<close>: the function is called on
  entering the node, the children of the node write \<open>inner\<close>, and the function is called
  again on leaving. \<open>rendered_heading\<close> is the heading as the converter of \<open>main\<close>
  writes it, with the function that is registered.
\<close>

definition render_heading_with :: "heading_func \<Rightarrow> string \<Rightarrow> Heading \<Rightarrow> string \<Rightarrow> string option" where
  "render_heading_with f w n inner =
     (case f w n True of
        None \<Rightarrow> None
      | Some w1 \<Rightarrow> f (w1 @ inner) n False)"

definition rendered_heading ::
  "((string \<times> attr_value) list \<Rightarrow> string) \<Rightarrow> string \<Rightarrow> Heading \<Rightarrow> string \<Rightarrow> string option" where
  "rendered_heading ra w n inner =
     (case registered_heading (main_NodeRenderers ra) of
        None \<Rightarrow> None
      | Some f \<Rightarrow> render_heading_with f w n inner)"

text \<open>
  The id of a heading as the renderer reads it: the bytes or the string assigned to the
  attribute \<open>id\<close>, and the empty string when no id was assigned or when the value is
  of another type. The parser of the markdown library assigns heading ids as byte slices.
\<close>

definition heading_id :: "Heading \<Rightarrow> string" where
  "heading_id n =
     (case map_of (Attributes n) ''id'' of
        Some (Bytes v) \<Rightarrow> v
      | Some (Str v) \<Rightarrow> v
      | _ \<Rightarrow> [])"

section \<open>Dates\<close>

text \<open>
  A \<open>time.Time\<close> of the build is the zero value, the first of January of the year 1,
  or what \<open>time.Parse\<close> returns for the layout \<open>2006-01-02\<close>: midnight UTC of a
  calendar day. It is modelled by that day. \<open>After\<close> compares instants, here days.
\<close>

record Time =
  year :: nat
  month :: nat
  day :: nat

definition zeroTime :: Time where
  "zeroTime = \<lparr>year = 1, month = 1, day = 1\<rparr>"

definition After :: "Time \<Rightarrow> Time \<Rightarrow> bool" where
  "After t u =
     (year u < year t
      \<or> (year u = year t \<and> (month u < month t \<or> (month u = month t \<and> day u < day t))))"

definition isLeap :: "nat \<Rightarrow> bool" where
  "isLeap y = (y mod 4 = 0 \<and> (y mod 100 \<noteq> 0 \<or> y mod 400 = 0))"

definition daysIn :: "nat \<Rightarrow> nat \<Rightarrow> nat" where
  "daysIn m y =
     (if m = 2 then (if isLeap y then 29 else 28)
      else if m = 4 \<or> m = 6 \<or> m = 9 \<or> m = 11 then 30
      else 31)"

definition isDigit :: "char \<Rightarrow> bool" where
  "isDigit c = (c \<in> set ''0123456789'')"

definition digit_val :: "char \<Rightarrow> nat" where
  "digit_val c = length (takeWhile (\<lambda>d. d \<noteq> c) ''0123456789'')"

text \<open>
  \<open>time.Parse("2006-01-02", v)\<close>: four digits, a hyphen, two digits, a hyphen, two
  digits and nothing more; the month must be 1 to 12 and the day must exist in that month
  of that year. Every year from 0000 to 9999 is accepted. \<open>None\<close> is a parse error.
\<close>

definition time_Parse :: "string \<Rightarrow> Time option" where
  "time_Parse v =
     (if length v = 10 \<and> list_all isDigit (take 4 v) \<and> v ! 4 = CHR ''-''
         \<and> list_all isDigit (take 2 (drop 5 v)) \<and> v ! 7 = CHR ''-''
         \<and> list_all isDigit (drop 8 v)
      then
        (let y = digit_val (v ! 0) * 1000 + digit_val (v ! 1) * 100
                 + digit_val (v ! 2) * 10 + digit_val (v ! 3);
             m = digit_val (v ! 5) * 10 + digit_val (v ! 6);
             d = digit_val (v ! 8) * 10 + digit_val (v ! 9)
         in if 1 \<le> m \<and> m \<le> 12 \<and> 1 \<le> d \<and> d \<le> daysIn m y
            then Some \<lparr>year = y, month = m, day = d\<rparr>
            else None)
      else None)"

text \<open>
  \<open>t.Format("Jan 02, 2006")\<close>: the short name of the month, the day in two digits and
  the year in at least four.
\<close>

definition month_names :: "string list" where
  "month_names = [''Jan'', ''Feb'', ''Mar'', ''Apr'', ''May'', ''Jun'',
                  ''Jul'', ''Aug'', ''Sep'', ''Oct'', ''Nov'', ''Dec'']"

definition digit_char :: "nat \<Rightarrow> char" where
  "digit_char n = ''0123456789'' ! n"

fun decimal :: "nat \<Rightarrow> string" where
  "decimal n = (if n < 10 then [digit_char n] else decimal (n div 10) @ [digit_char (n mod 10)])"

declare decimal.simps [simp del]

definition appendInt :: "nat \<Rightarrow> nat \<Rightarrow> string" where
  "appendInt x width = replicate (width - length (decimal x)) (CHR ''0'') @ decimal x"

definition time_Format :: "Time \<Rightarrow> string" where
  "time_Format t =
     month_names ! (month t - 1) @ '' '' @ appendInt (day t) 2 @ '', '' @ appendInt (year t) 4"

text \<open>
  A \<open>Time\<close> that stands for a calendar day, as every \<open>time.Time\<close> does; and a string in
  the form \<open>Format\<close> gives a date: the short name of a month, a space, two digits or
  more, a comma, a space, four digits or more.
\<close>

definition valid_time :: "Time \<Rightarrow> bool" where
  "valid_time t = (1 \<le> month t \<and> month t \<le> 12 \<and> 1 \<le> day t \<and> day t \<le> daysIn (month t) (year t))"

definition human_date :: "string \<Rightarrow> bool" where
  "human_date s =
     (let name = take 3 s;
          digits = takeWhile isDigit (drop 4 s);
          rest = dropWhile isDigit (drop 4 s)
      in name \<in> set month_names
         \<and> take 1 (drop 3 s) = '' ''
         \<and> 2 \<le> length digits
         \<and> take 2 rest = '', ''
         \<and> 4 \<le> length (drop 2 rest)
         \<and> list_all isDigit (drop 2 rest))"

section \<open>Posts and notes\<close>

record Post =
  Title :: string
  Description :: string
  Date :: Time
  Tags :: "string list"
  Content :: string
  URL :: string
  Slug :: string

text \<open>
  The markdown converter belongs to a library and is a parameter \<open>md\<close>: for a body it
  gives the text that \<open>Convert\<close> wrote into the buffer and the error it returned, if any.
\<close>

type_synonym markdown = "string \<Rightarrow> string \<times> error option"

text \<open>\<open>filepath.Base\<close>: the last element of a path, trailing slashes removed first.\<close>

definition Base :: "string \<Rightarrow> string" where
  "Base path =
     (if path = [] then ''.''
      else
        (let p = dropWhile (\<lambda>c. c = CHR ''/'') (rev path)
         in if p = [] then ''/'' else rev (takeWhile (\<lambda>c. c \<noteq> CHR ''/'') p)))"

text \<open>\<open>time.Parse\<close> returns the zero \<open>Time\<close> beside an error, and the callers drop the
  error.\<close>

definition parse_date :: "string \<Rightarrow> Time" where
  "parse_date v = (case time_Parse v of Some t \<Rightarrow> t | None \<Rightarrow> zeroTime)"

text \<open>
  \<open>processMarkdownFile\<close>, from the result \<open>file\<close> of its call of \<open>os.ReadFile(path)\<close>
  on.
\<close>

definition processMarkdownFile ::
  "markdown \<Rightarrow> error + string \<Rightarrow> string \<Rightarrow> string \<Rightarrow> string \<Rightarrow> error + Post" where
  "processMarkdownFile md file path outputRelPath baseURL =
     (case file of
        Inl e \<Rightarrow> Inl e
      | Inr content \<Rightarrow>
          (case parseFrontmatter content of
             (meta, body, Some e) \<Rightarrow> Inl e
           | (meta, body, None) \<Rightarrow>
               (case md body of
                  (html, Some e) \<Rightarrow> Inl e
                | (html, None) \<Rightarrow>
                    Inr \<lparr>Title = mapget meta ''title'',
                         Description = mapget meta ''description'',
                         Date = parse_date (mapget meta ''date''),
                         Tags = parse_tags (mapget meta ''tags''),
                         Content = html,
                         URL = baseURL @ outputRelPath,
                         Slug = TrimSuffix (Base path) ''.md''\<rparr>)))"

section \<open>The build\<close>

text \<open>
  The working directory of the build is a list of entries \<open>cwd\<close>. A path is resolved
  from it one element after the other; reading succeeds on a readable file.
\<close>

fun find_entry :: "string \<Rightarrow> fsnode list \<Rightarrow> fsnode option" where
  "find_entry name [] = None"
| "find_entry name (e # entries) = (if fs_name e = name then Some e else find_entry name entries)"

fun resolve :: "fsnode list \<Rightarrow> string list \<Rightarrow> fsnode option" where
  "resolve entries [] = None"
| "resolve entries [name] = find_entry name entries"
| "resolve entries (name # names) =
     (case find_entry name entries of
        Some (Dir _ children) \<Rightarrow> resolve children names
      | _ \<Rightarrow> None)"

definition os_ReadFile :: "fsnode list \<Rightarrow> string \<Rightarrow> error + string" where
  "os_ReadFile cwd path =
     (case resolve cwd (Split path ''/'') of
        Some (File _ content) \<Rightarrow> Inr content
      | _ \<Rightarrow> Inl (ReadError path))"

text \<open>
  The loop over the post files. A file that cannot be processed is logged and passed
  over. The page of a post is written to \<open>public/slug/index.html\<close>; \<open>write_ok\<close> tells
  whether creating that file and executing the template succeed, and a failure ends the
  build (\<open>log.Fatal\<close>). The result is the list \<open>posts\<close> and the pages written.
\<close>

fun process_posts ::
  "markdown \<Rightarrow> fsnode list \<Rightarrow> (string \<Rightarrow> bool) \<Rightarrow> string \<Rightarrow> string list
   \<Rightarrow> error + (Post list \<times> string list)" where
  "process_posts md cwd write_ok baseURL [] = Inr ([], [])"
| "process_posts md cwd write_ok baseURL (file # files) =
     (let slug = TrimSuffix (Base file) ''.md'' in
      case processMarkdownFile md (os_ReadFile cwd file) file slug baseURL of
        Inl e \<Rightarrow> process_posts md cwd write_ok baseURL files
      | Inr post \<Rightarrow>
          if write_ok (Join_path (Join_path ''public'' slug) ''index.html'')
          then
            (case process_posts md cwd write_ok baseURL files of
               Inl e \<Rightarrow> Inl e
             | Inr (posts, pages) \<Rightarrow>
                 Inr (post # posts, Join_path (Join_path ''public'' slug) ''index.html'' # pages))
          else Inl (Fatal (Join_path (Join_path ''public'' slug) ''index.html'')))"

text \<open>In \<open>main\<close> the loop runs over the literal \<open>[]string{}\<close>.\<close>

definition main_posts ::
  "markdown \<Rightarrow> fsnode list \<Rightarrow> (string \<Rightarrow> bool) \<Rightarrow> string \<Rightarrow> error + (Post list \<times> string list)" where
  "main_posts md cwd write_ok baseURL = process_posts md cwd write_ok baseURL []"

text \<open>
  \<open>sort.Slice\<close> belongs to the Go library. Its documentation promises that the slice is
  sorted by the given \<open>less\<close> afterwards, and states that the sort is not guaranteed to be
  stable. The model is the relation between the slice before and after the call that
  this contract allows: a permutation in which no element is less than one before it.
\<close>

definition sort_Slice :: "('a \<Rightarrow> 'a \<Rightarrow> bool) \<Rightarrow> 'a list \<Rightarrow> 'a list \<Rightarrow> bool" where
  "sort_Slice lt xs ys = (mset ys = mset xs \<and> sorted_wrt (\<lambda>a b. \<not> lt b a) ys)"

text \<open>The \<open>less\<close> function of the three sorts of \<open>main\<close>: the newer date first.\<close>

definition newest_first :: "Post \<Rightarrow> Post \<Rightarrow> bool" where
  "newest_first p q = After (Date p) (Date q)"

text \<open>
  \<open>filepath.Walk(root, fn)\<close> for the callbacks of \<open>main\<close> that return the error they
  are given and otherwise nil (the walk that collects the tags of the notes and the walk
  that builds the search index): the files below a directory are visited in the order of
  the listings, and a directory that cannot be listed ends the walk. \<open>walk\<close> gives the
  files visited, each with its path, and whether the walk came to its end. The directory
  is taken not to change during a build, so every walk visits the same files. The walk
  that writes the pages of the notes and copies the other files is not part of the model.
\<close>

fun walk :: "string \<Rightarrow> fsnode list \<Rightarrow> (string \<times> fsnode) list \<times> bool" where
  "walk path [] = ([], True)"
| "walk path (Dir name children # entries) =
     (case walk (Join_path path name) children of
        (visited, False) \<Rightarrow> (visited, False)
      | (visited, True) \<Rightarrow>
          (case walk path entries of (rest, ended) \<Rightarrow> (visited @ rest, ended)))"
| "walk path (NoDir name # entries) = ([], False)"
| "walk path (e # entries) =
     (case walk path entries of (rest, ended) \<Rightarrow> ((Join_path path (fs_name e), e) # rest, ended))"

definition Walk :: "fsnode list \<Rightarrow> string \<Rightarrow> (string \<times> fsnode) list" where
  "Walk cwd root =
     (case find_entry root cwd of
        None \<Rightarrow> []
      | Some (Dir _ entries) \<Rightarrow> fst (walk root entries)
      | Some (NoDir _) \<Rightarrow> []
      | Some e \<Rightarrow> [(root, e)])"

text \<open>\<open>data, _ := os.ReadFile(path)\<close> for a file the walk visits: no data on an error.\<close>

definition read_visited :: "fsnode \<Rightarrow> string" where
  "read_visited e = (case e of File _ content \<Rightarrow> content | _ \<Rightarrow> [])"

text \<open>The test of the walks over the notes: a markdown file other than \<open>_index.md\<close>.\<close>

definition is_note :: "string \<Rightarrow> bool" where
  "is_note path = (HasSuffix path ''.md'' \<and> Base path \<noteq> ''_index.md'')"

definition note_url :: "string \<Rightarrow> string \<Rightarrow> string" where
  "note_url baseURL path = baseURL @ ''notes/'' @ TrimSuffix (Rel_notes path) ''.md''"

definition note_title :: "gomap \<Rightarrow> fsnode \<Rightarrow> string" where
  "note_title meta e = (if mapget meta ''title'' = [] then fs_name e else mapget meta ''title'')"

subsection \<open>The tag index\<close>

text \<open>
  \<open>tagsMap[strings.ToLower(t)] = append(tagsMap[strings.ToLower(t)], p)\<close>.
  \<open>ToLower\<close> is modelled for ASCII: the letters A to Z are mapped, other bytes are
  left as they are. For a string with bytes outside ASCII the library maps runes by the
  Unicode tables, which the model does not follow.
\<close>

definition lower_char :: "char \<Rightarrow> char" where
  "lower_char c =
     (case map_of (zip ''ABCDEFGHIJKLMNOPQRSTUVWXYZ'' ''abcdefghijklmnopqrstuvwxyz'') c of
        Some l \<Rightarrow> l
      | None \<Rightarrow> c)"

definition ToLower :: "string \<Rightarrow> string" where
  "ToLower s = map lower_char s"

type_synonym tagindex = "string \<rightharpoonup> Post list"

definition tagged :: "tagindex \<Rightarrow> string \<Rightarrow> Post list" where
  "tagged m k = (case m k of None \<Rightarrow> [] | Some ps \<Rightarrow> ps)"

definition tag_add :: "Post \<Rightarrow> tagindex \<Rightarrow> string \<Rightarrow> tagindex" where
  "tag_add p m t = m(ToLower t \<mapsto> tagged m (ToLower t) @ [p])"

text \<open>The loop over the posts: every tag of every post.\<close>

definition collect_post_tags :: "tagindex \<Rightarrow> Post list \<Rightarrow> tagindex" where
  "collect_post_tags m posts = foldl (\<lambda>m p. foldl (tag_add p) m (Tags p)) m posts"

text \<open>The walk over the notes: the item of a note, and the tags parsed from its
  frontmatter.\<close>

definition tag_note :: "string \<Rightarrow> string \<Rightarrow> fsnode \<Rightarrow> Post" where
  "tag_note baseURL path e =
     (case parseFrontmatter (read_visited e) of
        (meta, body, err) \<Rightarrow>
          \<lparr>Title = note_title meta e,
           Description = mapget meta ''description'',
           Date = parse_date (mapget meta ''date''),
           Tags = [],
           Content = [],
           URL = note_url baseURL path,
           Slug = []\<rparr>)"

definition note_tags :: "fsnode \<Rightarrow> string list" where
  "note_tags e = parse_tags (mapget (fst (parseFrontmatter (read_visited e))) ''tags'')"

definition collect_note_tags :: "string \<Rightarrow> tagindex \<Rightarrow> (string \<times> fsnode) list \<Rightarrow> tagindex" where
  "collect_note_tags baseURL m visited =
     foldl (\<lambda>m (path, e).
              if is_note path then foldl (tag_add (tag_note baseURL path e)) m (note_tags e)
              else m)
       m visited"

subsection \<open>The search index\<close>

definition post_search_item :: "Post \<Rightarrow> (string \<rightharpoonup> string)" where
  "post_search_item p =
     [''title'' \<mapsto> Title p,
      ''url'' \<mapsto> URL p,
      ''date'' \<mapsto> time_Format (Date p),
      ''content'' \<mapsto> Content p,
      ''type'' \<mapsto> ''post'',
      ''tags'' \<mapsto> Join (Tags p) '','']"

definition formattedDate :: "string \<Rightarrow> string" where
  "formattedDate dateStr =
     (if dateStr \<noteq> []
      then (case time_Parse dateStr of Some t \<Rightarrow> time_Format t | None \<Rightarrow> dateStr)
      else [])"

definition note_search_item :: "markdown \<Rightarrow> string \<Rightarrow> string \<Rightarrow> fsnode \<Rightarrow> (string \<rightharpoonup> string)" where
  "note_search_item md baseURL path e =
     (case parseFrontmatter (read_visited e) of
        (meta, body, err) \<Rightarrow>
          [''title'' \<mapsto> note_title meta e,
           ''url'' \<mapsto> note_url baseURL path,
           ''date'' \<mapsto> formattedDate (mapget meta ''date''),
           ''content'' \<mapsto> fst (md body),
           ''type'' \<mapsto> ''note'',
           ''tags'' \<mapsto> Join (parse_tags (mapget meta ''tags'')) '',''])"

text \<open>The entry of a note in \<open>allNotes\<close>; its date stays zero unless the date parses.\<close>

definition sitemap_note :: "string \<Rightarrow> string \<Rightarrow> fsnode \<Rightarrow> Post" where
  "sitemap_note baseURL path e =
     (case parseFrontmatter (read_visited e) of
        (meta, body, err) \<Rightarrow>
          \<lparr>Title = note_title meta e,
           Description = mapget meta ''description'',
           Date = parse_date (mapget meta ''date''),
           Tags = [],
           Content = [],
           URL = note_url baseURL path,
           Slug = []\<rparr>)"

definition search_index ::
  "markdown \<Rightarrow> string \<Rightarrow> Post list \<Rightarrow> (string \<times> fsnode) list \<Rightarrow> (string \<rightharpoonup> string) list" where
  "search_index md baseURL posts visited =
     map post_search_item posts
     @ map (\<lambda>(path, e). note_search_item md baseURL path e) (filter (\<lambda>(path, e). is_note path) visited)"

definition all_notes :: "string \<Rightarrow> (string \<times> fsnode) list \<Rightarrow> Post list" where
  "all_notes baseURL visited =
     map (\<lambda>(path, e). sitemap_note baseURL path e) (filter (\<lambda>(path, e). is_note path) visited)"

subsection \<open>What the build derives from the sorted posts\<close>

record Site =
  homePosts :: "Post list"
  tagsMap :: tagindex
  allSearchItems :: "(string \<rightharpoonup> string) list"
  sitemapPosts :: "Post list"
  allNotes :: "Post list"
  allContent :: "Post list"

text \<open>
  \<open>main\<close> after the sort of \<open>posts\<close>, with \<open>posts\<close> as the sort left it: the list
  given to the homepage template, the tag index, the search index, the two lists given to
  the sitemap template, and the list \<open>allContent\<close> that is sorted for the feed.
\<close>

definition main_site :: "markdown \<Rightarrow> string \<Rightarrow> Post list \<Rightarrow> (string \<times> fsnode) list \<Rightarrow> Site" where
  "main_site md baseURL posts visited =
     \<lparr>homePosts = posts,
      tagsMap = collect_note_tags baseURL (collect_post_tags Map.empty posts) visited,
      allSearchItems = search_index md baseURL posts visited,
      sitemapPosts = posts,
      allNotes = all_notes baseURL visited,
      allContent = posts @ all_notes baseURL visited\<rparr>"

text \<open>
  A build: the posts are collected, sorted, and the site is derived from the sorted posts
  and the files below \<open>notes\<close>. \<open>build\<close> holds for the pages of the posts and the
  site of a run that is not ended by a fatal error.
\<close>

definition build ::
  "markdown \<Rightarrow> fsnode list \<Rightarrow> (string \<Rightarrow> bool) \<Rightarrow> string \<Rightarrow> string list \<Rightarrow> Site \<Rightarrow> bool" where
  "build md cwd write_ok baseURL pages site =
     (\<exists>posts ordered.
        main_posts md cwd write_ok baseURL = Inr (posts, pages)
        \<and> sort_Slice newest_first posts ordered
        \<and> site = main_site md baseURL ordered (Walk cwd ''notes''))"

section \<open>Notions of the specification\<close>

text \<open>
  The listing keeps the encounter order of the posts when, for every date, the posts of
  that date stand in the listing in the order in which they were collected.
\<close>

definition keeps_encounter_order :: "Post list \<Rightarrow> Post list \<Rightarrow> bool" where
  "keeps_encounter_order posts ys =
     (\<forall>p \<in> set posts. filter (\<lambda>q. Date q = Date p) ys = filter (\<lambda>q. Date q = Date p) posts)"

text \<open>
  The date field of a search record, for a note whose frontmatter gives the date string
  \<open>dateStr\<close>: empty when there is no date, the formatted date when the string is a
  date, and the string itself when it is not empty and is not a date.
\<close>

definition date_field :: "string \<Rightarrow> string \<Rightarrow> bool" where
  "date_field dateStr out =
     (if dateStr = [] then out = []
      else
        (case time_Parse dateStr of
           Some t \<Rightarrow> out = time_Format t \<and> human_date out
         | None \<Rightarrow> out = dateStr))"

text \<open>
  The body, the date string and the tags that a walk takes from the frontmatter of a
  file it visits.
\<close>

definition note_body :: "fsnode \<Rightarrow> string" where
  "note_body e = fst (snd (parseFrontmatter (read_visited e)))"

definition note_date :: "fsnode \<Rightarrow> string" where
  "note_date e = mapget (fst (parseFrontmatter (read_visited e))) ''date''"

text \<open>
  The items that enter the tag index, each with its list of tags, in the order in which
  the two loops of \<open>main\<close> meet them: the posts, then the notes.
\<close>

definition tagged_items :: "string \<Rightarrow> Post list \<Rightarrow> (string \<times> fsnode) list \<Rightarrow> (Post \<times> string list) list" where
  "tagged_items baseURL posts visited =
     map (\<lambda>p. (p, Tags p)) posts
     @ map (\<lambda>(path, e). (tag_note baseURL path e, note_tags e))
         (filter (\<lambda>(path, e). is_note path) visited)"

text \<open>
  The page of a tag: \<open>main\<close> writes \<open>public/tags/tag.html\<close> for every key
  of the index, from the list of the key as \<open>sort.Slice\<close> leaves it.
\<close>

definition tag_page :: "Site \<Rightarrow> string \<Rightarrow> Post list \<Rightarrow> bool" where
  "tag_page site tag ys =
     (tag \<in> dom (tagsMap site) \<and> sort_Slice newest_first (tagged (tagsMap site) tag) ys)"

text \<open>
  The pieces of a string between the occurrences of a byte, and a string without its
  quote characters: what \<open>strings.Split\<close> with a separator of one byte and the two
  calls of \<open>strings.ReplaceAll\<close> in the tag parser compute.
\<close>

fun split_at :: "char \<Rightarrow> string \<Rightarrow> string list" where
  "split_at c [] = [[]]"
| "split_at c (x # xs) =
     (if x = c then [] # split_at c xs
      else (case split_at c xs of [] \<Rightarrow> [[x]] | p # ps \<Rightarrow> (x # p) # ps))"

definition unquoted :: "string \<Rightarrow> string" where
  "unquoted s = RemoveAll (RemoveAll s DQ) SQ"

section \<open>Sample inputs\<close>

text \<open>
  A post as \<open>processMarkdownFile\<close> builds it from a title and a date string, a
  converter that wraps the body in a paragraph, an attribute renderer, and the documents
  and directories the examples below are evaluated on.
\<close>

definition dated_post :: "string \<Rightarrow> string \<Rightarrow> Post" where
  "dated_post title dateStr =
     \<lparr>Title = title, Description = [], Date = parse_date dateStr, Tags = [], Content = [],
      URL = ''/'' @ title, Slug = title\<rparr>"

definition three_posts :: "Post list" where
  "three_posts = [dated_post ''first'' ''2024-01-01'', dated_post ''second'' ''2024-03-01'',
                  dated_post ''third'' []]"

definition three_listing :: "Post list" where
  "three_listing = [dated_post ''second'' ''2024-03-01'', dated_post ''first'' ''2024-01-01'',
                    dated_post ''third'' []]"

definition thirteen_posts :: "Post list" where
  "thirteen_posts =
     map (\<lambda>title. dated_post title ''2024-01-01'')
       [''a'', ''b'', ''c'', ''d'', ''e'', ''f'', ''g'', ''h'', ''i'', ''j'', ''k'', ''l'']
     @ [dated_post ''z'' ''2024-03-01'']"

definition thirteen_listing :: "Post list" where
  "thirteen_listing =
     dated_post ''z'' ''2024-03-01''
     # map (\<lambda>title. dated_post title ''2024-01-01'')
         [''g'', ''c'', ''d'', ''e'', ''f'', ''a'', ''h'', ''i'', ''j'', ''k'', ''l'', ''b'']"

definition old_post :: Post where
  "old_post = dated_post ''old'' ''0000-06-01''"

definition undated_post :: Post where
  "undated_post = dated_post ''undated'' []"

definition old_document :: string where
  "old_document = ''---'' @ [NL] @ ''title: old'' @ [NL] @ ''date: 0000-06-01'' @ [NL] @ ''---'' @ [NL]"

definition undated_document :: string where
  "undated_document = ''---'' @ [NL] @ ''title: undated'' @ [NL] @ ''---'' @ [NL]"

definition empty_md :: markdown where
  "empty_md body = ([], None)"

definition sample_md :: markdown where
  "sample_md body = (''<p>'' @ body @ ''</p>'', None)"

definition sample_attrs :: "(string \<times> attr_value) list \<Rightarrow> string" where
  "sample_attrs attrs =
     concat (map (\<lambda>(k, v). '' '' @ k @ ''='' @ [DQ]
                    @ (case v of Bytes b \<Rightarrow> b | Str t \<Rightarrow> t | OtherValue \<Rightarrow> []) @ [DQ]) attrs)"

definition sample_document :: string where
  "sample_document =
     ''---'' @ [NL] @ ''title: Hello: World'' @ [NL] @ ''no colon here'' @ [NL]
     @ '':skipped'' @ [NL] @ ''title : Again '' @ [NL] @ ''---'' @ [NL] @ ''body''"

definition sample_notes :: "fsnode list" where
  "sample_notes =
     [NoDir ''.git'',
      File ''_index.md'' ''Welcome'',
      Dir ''garden''
        [File ''.draft.md'' ''x'',
         Dir ''images'' [File ''inner.md'' ''y''],
         File ''intro.md'' (''---'' @ [NL] @ ''title: Intro'' @ [NL] @ ''---'' @ [NL] @ ''text''),
         Unreadable ''locked.md''],
      Dir ''images'' [File ''pic.md'' ''z'', NoDir ''broken''],
      File ''notes.txt'' ''plain'',
      File ''x.md'' ''# Hi'']"

definition sample_tree :: "NoteNode list" where
  "sample_tree =
     [NoteNode ''garden'' [] True
        [NoteNode ''intro.md'' ''/notes/garden/intro'' False [] ''Intro''] [],
      NoteNode ''x.md'' ''/notes/x'' False [] ''x.md'']"

definition dated_note :: string where
  "dated_note = ''---'' @ [NL] @ ''title: X'' @ [NL] @ ''date: 2023-10-27'' @ [NL]
                @ ''tags: [go, web]'' @ [NL] @ ''---'' @ [NL] @ ''# Hi''"

definition tomorrow_note :: string where
  "tomorrow_note = ''---'' @ [NL] @ ''title: X'' @ [NL] @ ''date: tomorrow'' @ [NL]
                   @ ''---'' @ [NL] @ ''# Hi''"

definition ab_note :: string where
  "ab_note = ''---'' @ [NL] @ ''tags: ['' @ [DQ] @ ''a'' @ [DQ] @ '','' @ [DQ] @ ''b'' @ [DQ] @ '']''
             @ [NL] @ ''---'' @ [NL]"

definition bc_note :: string where
  "bc_note = ''---'' @ [NL] @ ''tags: B, c'' @ [NL] @ ''---'' @ [NL]"

definition two_notes :: "(string \<times> fsnode) list" where
  "two_notes = [(''notes/x.md'', File ''x.md'' ab_note), (''notes/y.md'', File ''y.md'' bc_note)]"

definition x_item :: Post where
  "x_item = \<lparr>Title = ''x.md'', Description = [], Date = zeroTime, Tags = [], Content = [],
             URL = ''/notes/x'', Slug = []\<rparr>"

definition y_item :: Post where
  "y_item = \<lparr>Title = ''y.md'', Description = [], Date = zeroTime, Tags = [], Content = [],
             URL = ''/notes/y'', Slug = []\<rparr>"

definition setup_heading :: Heading where
  "setup_heading = \<lparr>Level = 2, Attributes = [(''id'', Bytes ''setup'')]\<rparr>"

definition mixed_tags :: string where
  "mixed_tags = [SQ] @ ''go'' @ [SQ] @ '', , web ,''"


section \<open>Properties of the frontmatter parser\<close>

lemmas frontmatter_eval =
  parseFrontmatter_def SplitN_def delimiter_def HasPrefix_def scanner_lines_def dropCR_def
  MaxScanTokenSize_def parse_line_def TrimSpace_def TrimRightSpace_def space_suffix_rev_def
  asciiSpace_def Let_def mapget_def

lemma Index_single:
  "Index line [c] =
     (if c \<in> set line then int (length (takeWhile (\<lambda>x. x \<noteq> c) line)) else -1)"
  by (induction line) (auto simp: HasPrefix_def Let_def)

lemma drop_Suc_takeWhile:
  "drop (Suc (length (takeWhile P xs))) xs = tl (dropWhile P xs)"
  by (simp add: dropWhile_eq_drop drop_Suc tl_drop)

lemma parse_line_pair:
  "parse_line meta line =
     (if is_pair line then meta(line_key line \<mapsto> line_val line) else meta)"
proof (cases "CHR '':'' \<in> set line")
  case False
  then show ?thesis
    by (simp add: parse_line_def is_pair_def Index_single)
next
  case True
  then obtain c cs where line: "line = c # cs"
    by (cases line) auto
  show ?thesis
  proof (cases "c = CHR '':''")
    case True
    then show ?thesis
      by (simp add: parse_line_def is_pair_def Index_single line)
  next
    case False
    let ?n = "length (takeWhile (\<lambda>x. x \<noteq> CHR '':'') line)"
    have pos: "0 < ?n"
      using False by (simp add: line)
    have idx: "Index line '':'' = int ?n"
      using True by (simp add: Index_single)
    have key: "take ?n line = takeWhile (\<lambda>x. x \<noteq> CHR '':'') line"
      using takeWhile_eq_take [of "\<lambda>x. x \<noteq> CHR '':''" line] by simp
    have "nat (int ?n + 1) = Suc ?n"
      by simp
    then have val: "drop (nat (int ?n + 1)) line = tl (dropWhile (\<lambda>x. x \<noteq> CHR '':'') line)"
      by (simp only: drop_Suc_takeWhile)
    have "is_pair line"
      using True False by (simp add: is_pair_def line)
    then show ?thesis
      using pos by (simp add: parse_line_def idx key val line_key_def line_val_def)
  qed
qed

lemma foldl_parse_line:
  "foldl parse_line meta lines k =
     (case filter (\<lambda>l. is_pair l \<and> line_key l = k) (rev lines) of
        [] \<Rightarrow> meta k
      | l # _ \<Rightarrow> Some (line_val l))"
proof (induction lines rule: rev_induct)
  case Nil
  show ?case by simp
next
  case (snoc l ls)
  show ?case
    using snoc.IH by (simp add: parse_line_pair)
qed

text \<open>
  C7. A document that does not begin with the delimiter line \<open>---\<close>, newline, is
  returned whole as the body, with the nil map (no entry, every key reads as the empty
  string) and without an error.
\<close>

theorem parseFrontmatter_without_delimiter:
  assumes "\<not> HasPrefix content delimiter"
  shows "parseFrontmatter content = (None, content, None)
       \<and> maplen (fst (parseFrontmatter content)) = 0
       \<and> mapget (fst (parseFrontmatter content)) k = []"
  using assms by (simp add: parseFrontmatter_def maplen_def mapget_def)

theorem parseFrontmatter_without_delimiter_witness:
  "\<not> HasPrefix ''# Hi'' delimiter
   \<and> parseFrontmatter ''# Hi'' = (None, ''# Hi'', None)
   \<and> maplen (fst (parseFrontmatter ''# Hi'')) = 0
   \<and> mapget (fst (parseFrontmatter ''# Hi'')) ''title'' = []"
proof -
  have h: "\<not> HasPrefix ''# Hi'' delimiter"
    by (simp add: HasPrefix_def delimiter_def)
  show ?thesis
    using h parseFrontmatter_without_delimiter [OF h, of "''title''"] by blast
qed

text \<open>
  C10. When the parser fails, that is when it returns an error, the input begins with the
  delimiter line and splitting at the delimiter gave fewer than three parts; the parser
  then returns the nil map and the whole input as the body beside the error. The map and
  the body are those it returns for a document without frontmatter.
\<close>

theorem parseFrontmatter_failure:
  assumes "snd (snd (parseFrontmatter content)) = Some e"
  shows "parseFrontmatter content = (None, content, Some InvalidFrontmatter)
       \<and> HasPrefix content delimiter
       \<and> length (SplitN content delimiter 3) < 3
       \<and> mapget (fst (parseFrontmatter content)) k = []"
  using assms
  by (auto simp: parseFrontmatter_def Let_def mapget_def split: if_splits)

lemma SplitN_one_delimiter:
  "SplitN (''---'' @ [NL] @ ''title: x'' @ [NL]) delimiter 3 = [[], ''title: x'' @ [NL]]"
  by (simp add: SplitN_def delimiter_def HasPrefix_def)

theorem parseFrontmatter_failure_witness:
  "snd (snd (parseFrontmatter (''---'' @ [NL] @ ''title: x'' @ [NL]))) = Some InvalidFrontmatter
   \<and> parseFrontmatter (''---'' @ [NL] @ ''title: x'' @ [NL])
       = (None, ''---'' @ [NL] @ ''title: x'' @ [NL], Some InvalidFrontmatter)
   \<and> HasPrefix (''---'' @ [NL] @ ''title: x'' @ [NL]) delimiter
   \<and> length (SplitN (''---'' @ [NL] @ ''title: x'' @ [NL]) delimiter 3) < 3
   \<and> mapget (fst (parseFrontmatter (''---'' @ [NL] @ ''title: x'' @ [NL]))) ''title'' = []"
proof -
  have pre: "HasPrefix (''---'' @ [NL] @ ''title: x'' @ [NL]) delimiter"
    by (simp add: HasPrefix_def delimiter_def)
  have h: "snd (snd (parseFrontmatter (''---'' @ [NL] @ ''title: x'' @ [NL]))) = Some InvalidFrontmatter"
    unfolding parseFrontmatter_def Let_def SplitN_one_delimiter using pre by simp
  show ?thesis
    using h parseFrontmatter_failure [OF h, of "''title''"] by blast
qed

text \<open>
  C6, as the code has it. In a document that begins with the delimiter and splits into
  three parts, the map returned is built from the lines the scanner delivers for the
  middle part: a line whose first colon is not its first byte is a pair, with the trimmed
  text before that colon as the key and the trimmed text after it as the value, a later
  pair replacing an earlier one with the same key; a line without a colon is skipped, and
  so is a line that begins with a colon.
\<close>

theorem parseFrontmatter_pairs:
  assumes "HasPrefix content delimiter"
    and "3 \<le> length (SplitN content delimiter 3)"
  shows "fst (parseFrontmatter content)
         = Some (last_pair (scanner_lines (SplitN content delimiter 3 ! 1)))"
proof -
  have "foldl parse_line Map.empty lines = last_pair lines" for lines
    by (rule ext) (simp add: foldl_parse_line last_pair_def)
  then show ?thesis
    using assms by (simp add: parseFrontmatter_def Let_def)
qed

lemma SplitN_sample_document:
  "SplitN sample_document delimiter 3 =
     [[], ''title: Hello: World'' @ [NL] @ ''no colon here'' @ [NL]
          @ '':skipped'' @ [NL] @ ''title : Again '' @ [NL], ''body'']"
  by (simp add: SplitN_def delimiter_def HasPrefix_def sample_document_def)

lemma scanner_lines_sample_document:
  "scanner_lines (SplitN sample_document delimiter 3 ! 1) =
     [''title: Hello: World'', ''no colon here'', '':skipped'', ''title : Again '']"
  by (simp add: SplitN_sample_document scanner_lines_def dropCR_def MaxScanTokenSize_def)

lemma TrimSpace_samples:
  "TrimSpace ''title '' = ''title''"
  "TrimSpace ''title'' = ''title''"
  "TrimSpace '' Again '' = ''Again''"
  "TrimSpace '' Hello: World'' = ''Hello: World''"
  by (simp_all add: TrimSpace_def TrimRightSpace_def space_suffix_rev_def asciiSpace_def)

theorem parseFrontmatter_pairs_witness:
  "HasPrefix sample_document delimiter
   \<and> 3 \<le> length (SplitN sample_document delimiter 3)
   \<and> fst (parseFrontmatter sample_document)
       = Some (last_pair [''title: Hello: World'', ''no colon here'', '':skipped'', ''title : Again ''])
   \<and> last_pair [''title: Hello: World'', ''no colon here'', '':skipped'', ''title : Again ''] ''title''
       = Some ''Again''
   \<and> last_pair [''title: Hello: World''] ''title'' = Some ''Hello: World''
   \<and> last_pair [''title: Hello: World'', ''no colon here'', '':skipped'', ''title : Again ''] ''skipped''
       = None"
proof -
  have p: "HasPrefix sample_document delimiter"
    by (simp add: HasPrefix_def delimiter_def sample_document_def)
  have n: "3 \<le> length (SplitN sample_document delimiter 3)"
    by (simp add: SplitN_sample_document)
  have a: "last_pair [''title: Hello: World'', ''no colon here'', '':skipped'', ''title : Again ''] ''title''
       = Some ''Again''"
    by (simp add: last_pair_def is_pair_def line_key_def line_val_def TrimSpace_samples)
  have b: "last_pair [''title: Hello: World''] ''title'' = Some ''Hello: World''"
    by (simp add: last_pair_def is_pair_def line_key_def line_val_def TrimSpace_samples)
  have c: "last_pair [''title: Hello: World'', ''no colon here'', '':skipped'', ''title : Again ''] ''skipped''
       = None"
    by (simp add: last_pair_def is_pair_def line_key_def line_val_def TrimSpace_samples)
  have t: "fst (parseFrontmatter sample_document)
       = Some (last_pair [''title: Hello: World'', ''no colon here'', '':skipped'', ''title : Again ''])"
    using parseFrontmatter_pairs [OF p n] by (simp only: scanner_lines_sample_document)
  show ?thesis
    using p n a b c t by blast
qed

text \<open>
  The claim as the specification words it fails on a line that begins with a colon: the
  line holds a colon, and the code skips it. Here the only line of the block is
  \<open>: x\<close>, and the map returned is empty.
\<close>

theorem parseFrontmatter_leading_colon_counterexample:
  "CHR '':'' \<in> set '': x''
   \<and> scanner_lines (SplitN (''---'' @ [NL] @ '': x'' @ [NL] @ ''---'' @ [NL] @ ''body'') delimiter 3 ! 1)
       = ['': x'']
   \<and> parseFrontmatter (''---'' @ [NL] @ '': x'' @ [NL] @ ''---'' @ [NL] @ ''body'')
       = (Some Map.empty, ''body'', None)"
proof -
  have s: "SplitN (''---'' @ [NL] @ '': x'' @ [NL] @ ''---'' @ [NL] @ ''body'') delimiter 3
           = [[], '': x'' @ [NL], ''body'']"
    by (simp add: SplitN_def delimiter_def HasPrefix_def)
  have l: "scanner_lines ('': x'' @ [NL]) = ['': x'']"
    by (simp add: scanner_lines_def dropCR_def MaxScanTokenSize_def)
  have p: "HasPrefix (''---'' @ [NL] @ '': x'' @ [NL] @ ''---'' @ [NL] @ ''body'') delimiter"
    by (simp add: HasPrefix_def delimiter_def)
  have "parse_line Map.empty '': x'' = Map.empty"
    by (simp add: parse_line_def HasPrefix_def)
  then show ?thesis
    unfolding parseFrontmatter_def Let_def s using p l by simp
qed

section \<open>Properties of the tag parser\<close>

text \<open>
  \<open>TrimSpace\<close> removes a part at the start and a part at the end of a string, and what
  it returns has no white space left to remove.
\<close>

lemma TrimLeftSpace_drop: "\<exists>k. TrimLeftSpace x = drop k x"
proof (induction x rule: TrimLeftSpace.induct)
  case 1
  show ?case by simp
next
  case (2 c cs)
  show ?case
  proof (cases "space_prefix (c # cs) = 0")
    case True
    then have "TrimLeftSpace (c # cs) = drop 0 (c # cs)" by simp
    then show ?thesis by blast
  next
    case False
    define n where "n = space_prefix (c # cs) - 1"
    obtain k where "TrimLeftSpace (drop n cs) = drop k (drop n cs)"
      using 2 False unfolding n_def by blast
    then have "TrimLeftSpace (c # cs) = drop k (drop n cs)"
      using False by (simp add: n_def)
    also have "\<dots> = drop (Suc (k + n)) (c # cs)"
      by simp
    finally show ?thesis by blast
  qed
qed

lemma trim_space_rev_drop: "\<exists>k. trim_space_rev r = drop k r"
proof (induction r rule: trim_space_rev.induct)
  case 1
  show ?case by simp
next
  case (2 c cs)
  show ?case
  proof (cases "space_suffix_rev (c # cs) = 0")
    case True
    then have "trim_space_rev (c # cs) = drop 0 (c # cs)" by simp
    then show ?thesis by blast
  next
    case False
    define n where "n = space_suffix_rev (c # cs) - 1"
    obtain k where "trim_space_rev (drop n cs) = drop k (drop n cs)"
      using 2 False unfolding n_def by blast
    then have "trim_space_rev (c # cs) = drop k (drop n cs)"
      using False by (simp add: n_def)
    also have "\<dots> = drop (Suc (k + n)) (c # cs)"
      by simp
    finally show ?thesis by blast
  qed
qed

lemma space_prefix_TrimLeftSpace: "space_prefix (TrimLeftSpace x) = 0"
  by (induction x rule: TrimLeftSpace.induct) auto

lemma space_suffix_trim_space_rev: "space_suffix_rev (trim_space_rev r) = 0"
proof (induction r rule: trim_space_rev.induct)
  case 1
  show ?case by (simp add: space_suffix_rev_def)
next
  case (2 c cs)
  then show ?case by auto
qed

lemma TrimLeftSpace_fixed: "space_prefix y = 0 \<Longrightarrow> TrimLeftSpace y = y"
  by (cases y) auto

lemma trim_space_rev_fixed: "space_suffix_rev r = 0 \<Longrightarrow> trim_space_rev r = r"
  by (cases r) auto

lemma space_prefix_take: "space_prefix (take n y) \<noteq> 0 \<Longrightarrow> space_prefix y \<noteq> 0"
proof (cases y rule: space_prefix.cases)
  case 1
  then show "space_prefix (take n y) \<noteq> 0 \<Longrightarrow> space_prefix y \<noteq> 0" by simp
next
  case (2 a)
  then show "space_prefix (take n y) \<noteq> 0 \<Longrightarrow> space_prefix y \<noteq> 0"
    by (cases n) auto
next
  case (3 a b)
  show "space_prefix (take n y) \<noteq> 0 \<Longrightarrow> space_prefix y \<noteq> 0"
  proof (cases n)
    case 0
    then show "space_prefix (take n y) \<noteq> 0 \<Longrightarrow> space_prefix y \<noteq> 0" by simp
  next
    case (Suc m)
    then show "space_prefix (take n y) \<noteq> 0 \<Longrightarrow> space_prefix y \<noteq> 0"
      using 3 by (cases m) (auto split: if_splits)
  qed
next
  case (4 a b c rest)
  show "space_prefix (take n y) \<noteq> 0 \<Longrightarrow> space_prefix y \<noteq> 0"
  proof (cases n)
    case 0
    then show "space_prefix (take n y) \<noteq> 0 \<Longrightarrow> space_prefix y \<noteq> 0" by simp
  next
    case (Suc m)
    note n = Suc
    show "space_prefix (take n y) \<noteq> 0 \<Longrightarrow> space_prefix y \<noteq> 0"
    proof (cases m)
      case 0
      then show "space_prefix (take n y) \<noteq> 0 \<Longrightarrow> space_prefix y \<noteq> 0"
        using 4 n by (auto split: if_splits)
    next
      case (Suc l)
      then show "space_prefix (take n y) \<noteq> 0 \<Longrightarrow> space_prefix y \<noteq> 0"
        using 4 n by (cases l) (auto split: if_splits)
    qed
  qed
qed

lemma TrimSpace_prefix_of_left: "\<exists>n. TrimSpace x = take n (TrimLeftSpace x)"
proof -
  obtain k where "trim_space_rev (rev (TrimLeftSpace x)) = drop k (rev (TrimLeftSpace x))"
    using trim_space_rev_drop by blast
  then have "TrimSpace x = take (length (TrimLeftSpace x) - k) (TrimLeftSpace x)"
    by (simp add: TrimSpace_def TrimRightSpace_def rev_drop)
  then show ?thesis by blast
qed

lemma TrimSpace_idem: "TrimSpace (TrimSpace x) = TrimSpace x"
proof -
  obtain n where n: "TrimSpace x = take n (TrimLeftSpace x)"
    using TrimSpace_prefix_of_left by blast
  have "space_prefix (TrimSpace x) = 0"
    using space_prefix_take [of n "TrimLeftSpace x"] space_prefix_TrimLeftSpace [of x]
    unfolding n by auto
  then have left: "TrimLeftSpace (TrimSpace x) = TrimSpace x"
    by (rule TrimLeftSpace_fixed)
  have "rev (TrimSpace x) = trim_space_rev (rev (TrimLeftSpace x))"
    by (simp add: TrimSpace_def TrimRightSpace_def)
  then have "space_suffix_rev (rev (TrimSpace x)) = 0"
    by (simp add: space_suffix_trim_space_rev)
  then have "trim_space_rev (rev (TrimSpace x)) = rev (TrimSpace x)"
    by (rule trim_space_rev_fixed)
  then have "TrimRightSpace (TrimSpace x) = TrimSpace x"
    by (simp add: TrimRightSpace_def)
  then show ?thesis
    unfolding TrimSpace_def [of "TrimSpace x"] left .
qed

lemma set_TrimSpace: "set (TrimSpace x) \<subseteq> set x"
proof -
  obtain n where n: "TrimSpace x = take n (TrimLeftSpace x)"
    using TrimSpace_prefix_of_left by blast
  obtain k where k: "TrimLeftSpace x = drop k x"
    using TrimLeftSpace_drop by blast
  have "set (take n (drop k x)) \<subseteq> set x"
    using set_take_subset set_drop_subset by fast
  then show ?thesis
    by (simp add: n k)
qed

text \<open>
  \<open>strings.Split\<close> with a separator of one byte gives the pieces between the
  occurrences of the byte.
\<close>

lemma split_at_not_Nil: "split_at c s \<noteq> []"
  by (induction s) (auto split: list.splits)

lemma split_at_absent: "c \<notin> set s \<Longrightarrow> split_at c s = [s]"
  by (induction s) auto

lemma split_at_first:
  "c \<notin> set pre \<Longrightarrow> split_at c (pre @ c # post) = pre # split_at c post"
  by (induction pre) auto

lemma split_at_append: "split_at c (a @ c # b) = split_at c a @ split_at c b"
proof (induction a)
  case Nil
  show ?case by simp
next
  case (Cons x a)
  show ?case
  proof (cases "x = c")
    case True
    then show ?thesis using Cons by simp
  next
    case False
    obtain p ps where p: "split_at c a = p # ps"
      using split_at_not_Nil [of c a] by (cases "split_at c a") auto
    show ?thesis
      using False Cons by (simp add: p)
  qed
qed

lemma split_at_pieces: "p \<in> set (split_at c s) \<Longrightarrow> c \<notin> set p \<and> set p \<subseteq> set s"
proof (induction s arbitrary: p)
  case Nil
  then show ?case by simp
next
  case (Cons x s)
  show ?case
  proof (cases "x = c")
    case True
    then show ?thesis using Cons by auto
  next
    case False
    obtain q qs where q: "split_at c s = q # qs"
      using split_at_not_Nil [of c s] by (cases "split_at c s") auto
    have "c \<notin> set q \<and> set q \<subseteq> set s"
      using Cons.IH [of q] by (simp add: q)
    moreover have "\<forall>r \<in> set qs. c \<notin> set r \<and> set r \<subseteq> set s"
      using Cons.IH by (simp add: q)
    ultimately show ?thesis
      using Cons.prems False by (auto simp: q)
  qed
qed

lemma split_upto_split_at:
  "length (filter (\<lambda>x. x = c) s) \<le> k \<Longrightarrow> split_upto k s [c] = split_at c s"
proof (induction k arbitrary: s)
  case 0
  then have "c \<notin> set s"
    by (auto simp: filter_empty_conv)
  then show ?case
    by (simp add: split_at_absent)
next
  case (Suc k)
  show ?case
  proof (cases "c \<in> set s")
    case False
    then show ?thesis
      by (simp add: Index_single split_at_absent)
  next
    case True
    let ?pre = "takeWhile (\<lambda>x. x \<noteq> c) s"
    obtain post where s: "s = ?pre @ c # post"
      using True by (metis (mono_tags, lifting) dropWhile_eq_Cons_conv
          takeWhile_dropWhile_id dropWhile_eq_Nil_conv list.exhaust)
    have pre: "c \<notin> set ?pre"
      by (auto dest: set_takeWhileD)
    have "filter (\<lambda>x. x = c) ?pre = []"
      using pre by (auto simp: filter_empty_conv)
    then have "length (filter (\<lambda>x. x = c) (?pre @ c # post))
               = Suc (length (filter (\<lambda>x. x = c) post))"
      by simp
    then have "length (filter (\<lambda>x. x = c) s) = Suc (length (filter (\<lambda>x. x = c) post))"
      using s by simp
    then have le: "length (filter (\<lambda>x. x = c) post) \<le> k"
      using Suc.prems by simp
    have t: "take (length ?pre) s = ?pre"
      by (subst s) simp
    have d: "drop (Suc (length ?pre)) s = post"
      by (subst s) simp
    have "split_upto (Suc k) s [c] = ?pre # split_upto k post [c]"
      using True by (simp add: Index_single t d del: takeWhile.simps)
    also have "\<dots> = ?pre # split_at c post"
      by (simp only: Suc.IH [OF le])
    also have "\<dots> = split_at c (?pre @ c # post)"
      by (simp only: split_at_first [OF pre])
    finally show ?thesis
      using s by simp
  qed
qed

lemma Split_split_at: "Split s [c] = split_at c s"
  by (simp add: Split_def SplitN_def split_upto_split_at)

lemma parse_tags_split_at:
  "parse_tags s =
     filter (\<lambda>t. t \<noteq> []) (map TrimSpace (split_at (CHR '','') (unquoted (Trim s ''[]''))))"
proof (cases "s = []")
  case True
  have "TrimSpace [] = []"
    by (simp add: TrimSpace_def TrimRightSpace_def)
  then show ?thesis
    using True by (simp add: parse_tags_def Trim_def unquoted_def RemoveAll_def)
next
  case False
  then show ?thesis
    by (simp add: parse_tags_def unquoted_def Split_split_at)
qed

lemma Trim_brackets_around: "Trim (''['' @ s @ '']'') ''[]'' = Trim s ''[]''"
proof -
  define B where "B = (\<lambda>c :: char. c \<in> set ''[]'')"
  have b: "B (CHR ''['')" "B (CHR '']'')"
    by (simp_all add: B_def)
  have T: "Trim x ''[]'' = rev (dropWhile B (rev (dropWhile B x)))" for x
    unfolding Trim_def B_def ..
  have first: "dropWhile B (''['' @ s @ '']'') = dropWhile B (s @ '']'')"
    by (simp only: append_Cons append_Nil dropWhile.simps b if_True)
  have all: "dropWhile B xs = []" if "\<forall>x \<in> set xs. B x" for xs
    using that by (induction xs) auto
  show ?thesis
  proof (cases "\<forall>c \<in> set s. B c")
    case True
    then have "\<forall>c \<in> set (s @ '']''). B c"
      using b by simp
    then have e1: "dropWhile B (s @ '']'') = []"
      by (rule all)
    have e2: "dropWhile B s = []"
      using True by (rule all)
    show ?thesis
      unfolding T first e1 e2 ..
  next
    case False
    then obtain x where "x \<in> set s" "\<not> B x"
      by blast
    then have e: "dropWhile B (s @ '']'') = dropWhile B s @ '']''"
      by (rule dropWhile_append1)
    show ?thesis
      unfolding T first e using b by simp
  qed
qed

lemma Trim_without_brackets:
  assumes "CHR ''['' \<notin> set s" and "CHR '']'' \<notin> set s"
  shows "Trim s ''[]'' = s"
proof -
  have "dropWhile (\<lambda>c. c \<in> set ''[]'') x = x" if "CHR ''['' \<notin> set x" "CHR '']'' \<notin> set x" for x
    using that by (cases x) auto
  then show ?thesis
    using assms by (simp add: Trim_def)
qed

lemma unquoted_facts:
  "DQ \<notin> set (unquoted s)" "SQ \<notin> set (unquoted s)"
  "unquoted (a @ b) = unquoted a @ unquoted b"
  "unquoted (CHR '','' # b) = CHR '','' # unquoted b"
  "CHR '','' \<in> set (unquoted s) \<longleftrightarrow> CHR '','' \<in> set s"
  by (auto simp: unquoted_def RemoveAll_def)

lemma parse_tags_tokens:
  assumes "t \<in> set (parse_tags s)"
  shows "t \<noteq> [] \<and> TrimSpace t = t \<and> DQ \<notin> set t \<and> SQ \<notin> set t \<and> CHR '','' \<notin> set t"
proof -
  obtain p where p: "p \<in> set (split_at (CHR '','') (unquoted (Trim s ''[]'')))"
    and t: "t = TrimSpace p" and ne: "t \<noteq> []"
    using assms unfolding parse_tags_split_at by auto
  have "set t \<subseteq> set p"
    unfolding t by (rule set_TrimSpace)
  moreover have "CHR '','' \<notin> set p" and "set p \<subseteq> set (unquoted (Trim s ''[]''))"
    using split_at_pieces [OF p] by simp_all
  ultimately have "DQ \<notin> set t \<and> SQ \<notin> set t \<and> CHR '','' \<notin> set t"
    using unquoted_facts(1,2) [of "Trim s ''[]''"] by blast
  then show ?thesis
    using ne by (simp add: t TrimSpace_idem)
qed

lemma parse_tags_comma:
  assumes "CHR ''['' \<notin> set (a @ b)" and "CHR '']'' \<notin> set (a @ b)"
  shows "parse_tags (a @ '','' @ b) = parse_tags a @ parse_tags b"
proof -
  have "Trim (a @ '','' @ b) ''[]'' = a @ '','' @ b"
    using assms by (intro Trim_without_brackets) auto
  moreover have "Trim a ''[]'' = a" and "Trim b ''[]'' = b"
    using assms by (auto intro: Trim_without_brackets)
  moreover have "split_at (CHR '','') (unquoted a @ CHR '','' # unquoted b)
                 = split_at (CHR '','') (unquoted a) @ split_at (CHR '','') (unquoted b)"
    by (rule split_at_append)
  ultimately show ?thesis
    by (simp add: parse_tags_split_at unquoted_facts(3,4))
qed

lemma parse_tags_single:
  assumes "CHR ''['' \<notin> set t" and "CHR '']'' \<notin> set t" and "CHR '','' \<notin> set t"
  shows "parse_tags t = filter (\<lambda>x. x \<noteq> []) [TrimSpace (unquoted t)]"
proof -
  have "Trim t ''[]'' = t"
    using assms by (intro Trim_without_brackets)
  moreover have "split_at (CHR '','') (unquoted t) = [unquoted t]"
    using assms(3) by (intro split_at_absent) (simp add: unquoted_facts(5))
  ultimately show ?thesis
    by (simp add: parse_tags_split_at)
qed

lemma TrimSpace_tag_samples:
  "TrimSpace ''go'' = ''go''"
  "TrimSpace ''web'' = ''web''"
  "TrimSpace '' web'' = ''web''"
  by (simp_all add: TrimSpace_def TrimRightSpace_def space_suffix_rev_def asciiSpace_def)

text \<open>
  C8. The three spellings \<open>["go","web"]\<close>, \<open>[go, web]\<close> and \<open>'go', 'web'\<close> of a tag
  value are parsed to the same list \<open>go\<close>, \<open>web\<close>, in this order. For every value: a
  pair of brackets around it changes nothing; no tag of the result is empty, has white
  space at its start or its end, or holds a quote character or a comma; a comma between
  two values without brackets puts the tags of the second after the tags of the first;
  and a value without brackets and commas gives at most one tag, the value without its
  quote characters, trimmed, when that is not empty.
\<close>

theorem parse_tags_forms_and_steps:
  "parse_tags ([CHR ''['', DQ] @ ''go'' @ [DQ, CHR '','', DQ] @ ''web'' @ [DQ, CHR '']'']) = [''go'', ''web'']
   \<and> parse_tags ''[go, web]'' = [''go'', ''web'']
   \<and> parse_tags ([SQ] @ ''go'' @ [SQ] @ '', '' @ [SQ] @ ''web'' @ [SQ]) = [''go'', ''web'']
   \<and> parse_tags (''['' @ s @ '']'') = parse_tags s
   \<and> (\<forall>t \<in> set (parse_tags s).
         t \<noteq> [] \<and> TrimSpace t = t \<and> DQ \<notin> set t \<and> SQ \<notin> set t \<and> CHR '','' \<notin> set t)
   \<and> (CHR ''['' \<notin> set (a @ b) \<and> CHR '']'' \<notin> set (a @ b)
        \<longrightarrow> parse_tags (a @ '','' @ b) = parse_tags a @ parse_tags b)
   \<and> (CHR ''['' \<notin> set u \<and> CHR '']'' \<notin> set u \<and> CHR '','' \<notin> set u
        \<longrightarrow> parse_tags u = filter (\<lambda>x. x \<noteq> []) [TrimSpace (unquoted u)])"
proof -
  have forms:
    "parse_tags ([CHR ''['', DQ] @ ''go'' @ [DQ, CHR '','', DQ] @ ''web'' @ [DQ, CHR '']'']) = [''go'', ''web'']
     \<and> parse_tags ''[go, web]'' = [''go'', ''web'']
     \<and> parse_tags ([SQ] @ ''go'' @ [SQ] @ '', '' @ [SQ] @ ''web'' @ [SQ]) = [''go'', ''web'']"
    by (simp add: parse_tags_def Trim_def RemoveAll_def Split_def SplitN_def HasPrefix_def
        TrimSpace_tag_samples)
  have around: "parse_tags (''['' @ s @ '']'') = parse_tags s"
    unfolding parse_tags_split_at Trim_brackets_around ..
  show ?thesis
    using forms around parse_tags_tokens [of _ s] parse_tags_comma [of a b]
      parse_tags_single [of u]
    by (intro conjI ballI impI) simp_all
qed

theorem parse_tags_forms_and_steps_witness:
  "parse_tags mixed_tags = [''go'', ''web'']
   \<and> ''web'' \<in> set (parse_tags mixed_tags)
   \<and> TrimSpace ''web'' = ''web''
   \<and> CHR '','' \<notin> set ''web''
   \<and> CHR ''['' \<notin> set (''go'' @ '' web'')
   \<and> CHR '']'' \<notin> set (''go'' @ '' web'')
   \<and> parse_tags (''go'' @ '','' @ '' web'') = parse_tags ''go'' @ parse_tags '' web''
   \<and> parse_tags (''['' @ mixed_tags @ '']'') = parse_tags mixed_tags"
proof -
  have e: "parse_tags mixed_tags = [''go'', ''web'']"
    by (simp add: mixed_tags_def parse_tags_def Trim_def RemoveAll_def Split_def SplitN_def
        HasPrefix_def TrimSpace_def TrimRightSpace_def space_suffix_rev_def asciiSpace_def)
  have m: "''web'' \<in> set (parse_tags mixed_tags)"
    by (simp add: e)
  have n: "CHR ''['' \<notin> set (''go'' @ '' web'') \<and> CHR '']'' \<notin> set (''go'' @ '' web'')"
    by simp
  note t = parse_tags_forms_and_steps [of mixed_tags "''go''" "'' web''" "''go''"]
  have around: "parse_tags (''['' @ mixed_tags @ '']'') = parse_tags mixed_tags"
    using t by (elim conjE)
  have tokens: "\<forall>t \<in> set (parse_tags mixed_tags).
         t \<noteq> [] \<and> TrimSpace t = t \<and> DQ \<notin> set t \<and> SQ \<notin> set t \<and> CHR '','' \<notin> set t"
    using t by (elim conjE)
  have "CHR ''['' \<notin> set (''go'' @ '' web'') \<and> CHR '']'' \<notin> set (''go'' @ '' web'')
        \<longrightarrow> parse_tags (''go'' @ '','' @ '' web'') = parse_tags ''go'' @ parse_tags '' web''"
    using t by (elim conjE)
  then have comma: "parse_tags (''go'' @ '','' @ '' web'') = parse_tags ''go'' @ parse_tags '' web''"
    using n by (rule mp)
  have "TrimSpace ''web'' = ''web'' \<and> CHR '','' \<notin> set ''web''"
    using tokens m by blast
  then show ?thesis
    using e m n around comma by (intro conjI) simp_all
qed

section \<open>Properties of the notes tree\<close>

lemma node_names_file_node:
  "node_names (file_node root baseUrl name content) = [name]"
  by (simp add: file_node_def Let_def split: prod.splits)

lemma tree_names_Cons: "tree_names (n # ns) = node_names n @ tree_names ns"
  by (simp add: tree_names_def)

lemma tree_names_dir: "node_names (NoteNode name u d sub t) = name # tree_names sub"
  by (simp add: tree_names_def)

lemma buildNotesTree_names:
  "buildNotesTree root baseUrl entries = Inr nodes \<Longrightarrow> \<forall>name \<in> set (tree_names nodes). \<not> skipped name"
proof (induction root baseUrl entries arbitrary: nodes rule: buildNotesTree.induct)
  case (1 root baseUrl)
  then show ?case by (simp add: tree_names_def)
next
  case (2 root baseUrl fname content entries)
  show ?case
  proof (cases "skipped fname \<or> \<not> HasSuffix fname ''.md''")
    case True
    then have e: "buildNotesTree root baseUrl entries = Inr nodes"
      using "2.prems" by (simp split: if_splits)
    then show ?thesis using "2.IH" True by blast
  next
    case False
    then obtain rest where r: "buildNotesTree root baseUrl entries = Inr rest"
      and n: "nodes = file_node root baseUrl fname content # rest"
      using "2.prems" by (auto split: sum.splits)
    have "\<forall>name \<in> set (tree_names rest). \<not> skipped name"
      using "2.IH"(2) False r by blast
    then show ?thesis
      using False by (simp add: n tree_names_Cons node_names_file_node)
  qed
next
  case (3 root baseUrl fname entries)
  then show ?case by simp
next
  case (4 root baseUrl dname children entries)
  show ?case
  proof (cases "skipped dname")
    case True
    then have e: "buildNotesTree root baseUrl entries = Inr nodes"
      using "4.prems" by simp
    then show ?thesis using "4.IH"(1) True by blast
  next
    case False
    then obtain sub rest where s: "buildNotesTree (Join_path root dname) baseUrl children = Inr sub"
      and r: "buildNotesTree root baseUrl entries = Inr rest"
      and n: "nodes = NoteNode dname [] True sub [] # rest"
      using "4.prems" by (auto split: sum.splits)
    have "\<forall>name \<in> set (tree_names sub). \<not> skipped name"
      using "4.IH"(2) False s by blast
    moreover have "\<forall>name \<in> set (tree_names rest). \<not> skipped name"
      using "4.IH"(3) False s r by blast
    ultimately show ?thesis
      using False by (auto simp: n tree_names_Cons tree_names_dir simp del: node_names.simps)
  qed
next
  case (5 root baseUrl dname entries)
  then have "skipped dname" and "buildNotesTree root baseUrl entries = Inr nodes"
    by (simp_all split: if_splits)
  then show ?case using "5.IH" by blast
qed

lemma buildNotesTree_prune:
  "buildNotesTree root baseUrl (prune entries) = buildNotesTree root baseUrl entries"
  by (induction root baseUrl entries rule: buildNotesTree.induct)
    (auto split: sum.splits)

text \<open>
  C5. In a tree that \<open>buildNotesTree\<close> returns no node, at any depth, is named
  \<open>images\<close> or \<open>_index.md\<close> or has a name that begins with a dot; and the tree is the
  one built from the directory without such entries, so what they hold is not visited.
\<close>

theorem buildNotesTree_excludes:
  assumes "buildNotesTree root baseUrl entries = Inr nodes"
  shows "(\<forall>name \<in> set (tree_names nodes).
            name \<noteq> ''images'' \<and> name \<noteq> ''_index.md'' \<and> \<not> HasPrefix name ''.'')
       \<and> buildNotesTree root baseUrl (prune entries) = Inr nodes"
proof -
  have "\<forall>name \<in> set (tree_names nodes). \<not> skipped name"
    using buildNotesTree_names [OF assms] .
  then show ?thesis
    using assms by (auto simp: skipped_def buildNotesTree_prune)
qed

lemma file_node_intro:
  "file_node ''notes/garden'' ''/'' ''intro.md''
     (''---'' @ [NL] @ ''title: Intro'' @ [NL] @ ''---'' @ [NL] @ ''text'')
   = NoteNode ''intro.md'' ''/notes/garden/intro'' False [] ''Intro''"
proof -
  have s: "SplitN (''---'' @ [NL] @ ''title: Intro'' @ [NL] @ ''---'' @ [NL] @ ''text'') delimiter 3
           = [[], ''title: Intro'' @ [NL], ''text'']"
    by (simp add: SplitN_def delimiter_def HasPrefix_def)
  have l: "scanner_lines (''title: Intro'' @ [NL]) = [''title: Intro'']"
    by (simp add: scanner_lines_def dropCR_def MaxScanTokenSize_def)
  have t: "TrimSpace ''title'' = ''title''" "TrimSpace '' Intro'' = ''Intro''"
    by (simp_all add: TrimSpace_def TrimRightSpace_def space_suffix_rev_def asciiSpace_def)
  have p: "HasPrefix (''---'' @ [NL] @ ''title: Intro'' @ [NL] @ ''---'' @ [NL] @ ''text'') delimiter"
    by (simp add: HasPrefix_def delimiter_def)
  have m: "parse_line Map.empty ''title: Intro'' = [''title'' \<mapsto> ''Intro'']"
    by (simp add: parse_line_def HasPrefix_def t)
  have pf: "parseFrontmatter (''---'' @ [NL] @ ''title: Intro'' @ [NL] @ ''---'' @ [NL] @ ''text'')
        = (Some [''title'' \<mapsto> ''Intro''], ''text'', None)"
    unfolding parseFrontmatter_def Let_def s using p l m by simp
  show ?thesis
    unfolding file_node_def Let_def pf
    by (simp add: Join_path_def Rel_notes_def TrimSuffix_def HasSuffix_def mapget_def)
qed
lemma file_node_x:
  "file_node ''notes'' ''/'' ''x.md'' ''# Hi'' = NoteNode ''x.md'' ''/notes/x'' False [] ''x.md''"
proof -
  have pf: "parseFrontmatter ''# Hi'' = (None, ''# Hi'', None)"
    by (simp add: parseFrontmatter_def HasPrefix_def delimiter_def)
  show ?thesis
    unfolding file_node_def Let_def pf
    by (simp add: Join_path_def Rel_notes_def TrimSuffix_def HasSuffix_def mapget_def)
qed

lemma buildNotesTree_sample:
  "buildNotesTree ''notes'' ''/'' sample_notes = Inr sample_tree"
proof -
  have j: "Join_path ''notes'' ''garden'' = ''notes/garden''"
    by (simp add: Join_path_def)
  show ?thesis
    unfolding sample_notes_def sample_tree_def
    by (simp add: skipped_def HasPrefix_def HasSuffix_def j file_node_intro [simplified] file_node_x)
qed

theorem buildNotesTree_excludes_witness:
  "buildNotesTree ''notes'' ''/'' sample_notes = Inr sample_tree
   \<and> tree_names sample_tree = [''garden'', ''intro.md'', ''x.md'']
   \<and> buildNotesTree ''notes'' ''/'' (prune sample_notes) = Inr sample_tree"
proof -
  have n: "tree_names sample_tree = [''garden'', ''intro.md'', ''x.md'']"
    by (simp add: tree_names_def sample_tree_def)
  show ?thesis
    using buildNotesTree_sample n buildNotesTree_excludes [OF buildNotesTree_sample]
    by blast
qed

section \<open>Properties of the heading renderer\<close>

lemma renderHeading_leaving:
  assumes "level_digit (Level n) = Some d"
  shows "renderHeading ra w n False
         = Some (w @ (if (Level n = 2 \<or> Level n = 3) \<and> heading_id n \<noteq> []
                      then copy_link_button (''#'' @ heading_id n) else [])
                   @ ''</h'' @ [d] @ ''>'')"
  using assms
  by (simp add: renderHeading_def Let_def Attribute_def heading_id_def
      split: option.splits attr_value.splits)

text \<open>
  What \<open>renderHeading\<close> writes where it is the function called for a heading: the button
  for \<open>#id\<close> between the content and the closing tag when the level is 2 or 3 and the id
  is not empty, and the tags alone otherwise.
\<close>

lemma renderHeading_where_called:
  assumes "level_digit (Level n) = Some d"
  shows "render_heading_with (renderHeading ra) w n inner
         = Some (w @ ''<h'' @ [d] @ (if Attributes n \<noteq> [] then ra (Attributes n) else []) @ ''>''
                 @ inner
                 @ (if (Level n = 2 \<or> Level n = 3) \<and> heading_id n \<noteq> []
                    then copy_link_button (''#'' @ heading_id n) else [])
                 @ ''</h'' @ [d] @ ''>'')"
proof -
  have entering: "renderHeading ra w n True
      = Some (w @ ''<h'' @ [d] @ (if Attributes n \<noteq> [] then ra (Attributes n) else []) @ ''>'')"
    using assms by (simp add: renderHeading_def)
  show ?thesis
    unfolding render_heading_with_def entering
    by (simp add: renderHeading_leaving [OF assms])
qed

lemma registered_heading_main:
  "registered_heading (main_NodeRenderers ra) = Some (html_renderHeading ra)"
  by (simp add: registered_heading_def main_NodeRenderers_def)

lemma rendered_heading_html:
  "rendered_heading ra w n inner = render_heading_with (html_renderHeading ra) w n inner"
  by (simp add: rendered_heading_def registered_heading_main)

lemma rendered_heading_tags:
  "rendered_heading ra w n inner =
     (case level_digit (Level n) of
        None \<Rightarrow> None
      | Some d \<Rightarrow>
          Some (w @ ''<h'' @ [d] @ (if Attributes n \<noteq> [] then ra (Attributes n) else []) @ ''>''
                @ inner @ ''</h'' @ [d] @ ''>'' @ [NL]))"
  by (simp add: rendered_heading_html render_heading_with_def html_renderHeading_def
      split: option.splits)

text \<open>
  C4 does not hold of the program. \<open>main\<close> adds its heading renderer at priority 1000,
  the priority of the renderer of the library; the two keep their order in the sorted
  list, the library's renderer registers after the one of \<open>main\<close>, and its heading
  function replaces \<open>renderHeading\<close>. So every heading of the output is the opening tag,
  the content and the closing tag, and none carries the button. For the heading
  \<open>## Setup\<close>, of level 2 with the id \<open>setup\<close>, the output is the plain \<open>h2\<close> element,
  where \<open>renderHeading\<close>, had it been called, would have written the button that
  refers to \<open>#setup\<close>.
\<close>

theorem heading_button_not_rendered:
  "registered_heading (main_NodeRenderers ra) = Some (html_renderHeading ra)
   \<and> rendered_heading ra w n inner =
       (case level_digit (Level n) of
          None \<Rightarrow> None
        | Some d \<Rightarrow>
            Some (w @ ''<h'' @ [d] @ (if Attributes n \<noteq> [] then ra (Attributes n) else []) @ ''>''
                  @ inner @ ''</h'' @ [d] @ ''>'' @ [NL]))
   \<and> heading_id setup_heading = ''setup''
   \<and> rendered_heading sample_attrs [] setup_heading ''Setup''
       = Some (''<h2 id='' @ [DQ] @ ''setup'' @ [DQ] @ ''>Setup</h2>'' @ [NL])
   \<and> render_heading_with (renderHeading sample_attrs) [] setup_heading ''Setup''
       = Some (''<h2 id='' @ [DQ] @ ''setup'' @ [DQ] @ ''>Setup''
               @ '' <button class='' @ [DQ] @ ''copy-link-btn'' @ [DQ]
               @ '' aria-label='' @ [DQ] @ ''Copy link to this section'' @ [DQ]
               @ '' onclick='' @ [DQ] @ ''copyToClipboard('' @ [SQ] @ ''#setup'' @ [SQ]
               @ '', this)'' @ [DQ] @ ''><i class='' @ [DQ] @ ''fa-solid fa-link'' @ [DQ]
               @ ''></i></button>'' @ ''</h2>'')"
proof -
  have a: "heading_id setup_heading = ''setup''"
    by (simp add: heading_id_def setup_heading_def)
  have b: "rendered_heading sample_attrs [] setup_heading ''Setup''
       = Some (''<h2 id='' @ [DQ] @ ''setup'' @ [DQ] @ ''>Setup</h2>'' @ [NL])"
    by (simp add: rendered_heading_tags setup_heading_def level_digit_def sample_attrs_def)
  have c: "render_heading_with (renderHeading sample_attrs) [] setup_heading ''Setup''
       = Some (''<h2 id='' @ [DQ] @ ''setup'' @ [DQ] @ ''>Setup''
               @ '' <button class='' @ [DQ] @ ''copy-link-btn'' @ [DQ]
               @ '' aria-label='' @ [DQ] @ ''Copy link to this section'' @ [DQ]
               @ '' onclick='' @ [DQ] @ ''copyToClipboard('' @ [SQ] @ ''#setup'' @ [SQ]
               @ '', this)'' @ [DQ] @ ''><i class='' @ [DQ] @ ''fa-solid fa-link'' @ [DQ]
               @ ''></i></button>'' @ ''</h2>'')"
    by (simp add: render_heading_with_def renderHeading_def setup_heading_def level_digit_def
        Attribute_def sample_attrs_def copy_link_button_def)
  show ?thesis
    using registered_heading_main rendered_heading_tags a b c by (intro conjI)
qed

section \<open>Properties of the build\<close>

lemma find_entry_without_content:
  "find_entry ''notes'' (filter (\<lambda>e. fs_name e \<noteq> ''content'') cwd) = find_entry ''notes'' cwd"
  by (induction cwd) auto

lemma sort_Slice_Nil: "sort_Slice lt [] ys \<longleftrightarrow> ys = []"
  by (auto simp: sort_Slice_def)

lemma build_iff:
  "build md cwd write_ok baseURL pages site
   \<longleftrightarrow> pages = [] \<and> site = main_site md baseURL [] (Walk cwd ''notes'')"
  by (auto simp: build_def main_posts_def sort_Slice_Nil)

text \<open>
  C2. The loop over the post files collects no post and writes no page, whatever the
  working directory holds. A build therefore is the site derived from the empty list of
  posts and the files below \<open>notes\<close>, and it is the same build when the directory
  \<open>content\<close> is taken away. In that site the homepage lists no post, the tag index and
  the search index are made from the notes alone, the sitemap gets no post, and the list
  sorted for the feed is the list of the notes.
\<close>

theorem posts_never_collected:
  "main_posts md cwd write_ok baseURL = Inr ([], [])
   \<and> build md cwd write_ok baseURL pages site
       = (pages = [] \<and> site = main_site md baseURL [] (Walk cwd ''notes''))
   \<and> build md (filter (\<lambda>e. fs_name e \<noteq> ''content'') cwd) write_ok baseURL pages site
       = build md cwd write_ok baseURL pages site
   \<and> homePosts (main_site md baseURL [] visited) = []
   \<and> tagsMap (main_site md baseURL [] visited) = collect_note_tags baseURL Map.empty visited
   \<and> allSearchItems (main_site md baseURL [] visited)
       = map (\<lambda>(path, e). note_search_item md baseURL path e)
           (filter (\<lambda>(path, e). is_note path) visited)
   \<and> sitemapPosts (main_site md baseURL [] visited) = []
   \<and> allContent (main_site md baseURL [] visited) = allNotes (main_site md baseURL [] visited)"
proof -
  have w: "Walk (filter (\<lambda>e. fs_name e \<noteq> ''content'') cwd) ''notes'' = Walk cwd ''notes''"
    by (simp add: Walk_def find_entry_without_content)
  show ?thesis
    by (simp add: build_iff w main_posts_def main_site_def collect_post_tags_def search_index_def)
qed

section \<open>Properties of the homepage listing\<close>



subsection \<open>Remark: what the sort alone gives\<close>

text \<open>
  The lemmas of this remark are about \<open>sort.Slice\<close> with \<open>newest_first\<close> on lists of
  posts in general, not about a build, which sorts the empty list. The sort always has
  a result; a result is a permutation in which no post is dated after one before it, and
  in which every post with the zero date stands after every post dated later than the
  zero date. It need not keep the order of posts of one date, and a post dated in the
  year 0000, which \<open>time.Parse\<close> accepts, is older than the zero date.
\<close>

lemma After_irrefl: "\<not> After t t"
  by (simp add: After_def)

lemma After_key:
  "After t u \<longleftrightarrow> (year u, month u, day u) < (year t, month t, day t)"
  by (auto simp: After_def less_prod_def)

lemma sort_Slice_exists: "\<exists>ys. sort_Slice newest_first posts ys"
proof -
  define key where "key = (\<lambda>p :: Post. (year (Date p), month (Date p), day (Date p)))"
  have le: "\<not> newest_first a b \<longleftrightarrow> key a \<le> key b" for a b
    by (auto simp: newest_first_def After_def key_def less_eq_prod_def)
  have "sorted (map key (sort_key key posts))"
    by (rule sorted_sort_key)
  then have "sorted_wrt (\<lambda>a b. \<not> newest_first a b) (sort_key key posts)"
    by (simp add: sorted_map le)
  then have "sorted_wrt (\<lambda>a b. \<not> newest_first b a) (rev (sort_key key posts))"
    by (simp add: sorted_wrt_rev)
  then have "sort_Slice newest_first posts (rev (sort_key key posts))"
    by (simp add: sort_Slice_def)
  then show ?thesis ..
qed

lemma sort_Slice_newest_first_order:
  assumes "sort_Slice newest_first posts ys"
  shows "mset ys = mset posts
       \<and> (\<forall>i j. i < j \<and> j < length ys \<longrightarrow> \<not> After (Date (ys ! j)) (Date (ys ! i)))
       \<and> (\<forall>i j. i < length ys \<and> j < length ys \<and> Date (ys ! i) = zeroTime
                 \<and> After (Date (ys ! j)) zeroTime \<longrightarrow> j < i)"
proof -
  have perm: "mset ys = mset posts"
    using assms by (simp add: sort_Slice_def)
  have desc: "\<not> After (Date (ys ! j)) (Date (ys ! i))" if "i < j" "j < length ys" for i j
    using assms that by (simp add: sort_Slice_def sorted_wrt_iff_nth_less newest_first_def)
  have last: "j < i" if "i < length ys" "j < length ys" "Date (ys ! i) = zeroTime"
      "After (Date (ys ! j)) zeroTime" for i j
  proof (rule ccontr)
    assume "\<not> j < i"
    then consider "i = j" | "i < j" by linarith
    then show False
    proof cases
      case 1
      then show ?thesis using that After_irrefl by simp
    next
      case 2
      then show ?thesis using desc [OF 2 that(2)] that by simp
    qed
  qed
  show ?thesis
    using perm desc last by blast
qed

lemma parse_date_samples:
  "parse_date ''2024-01-01'' = \<lparr>year = 2024, month = 1, day = 1\<rparr>"
  "parse_date ''2024-03-01'' = \<lparr>year = 2024, month = 3, day = 1\<rparr>"
  "parse_date ''0000-06-01'' = \<lparr>year = 0, month = 6, day = 1\<rparr>"
  "parse_date [] = zeroTime"
  by (simp_all add: parse_date_def time_Parse_def isDigit_def digit_val_def daysIn_def)

lemma old_post_processed:
  "processMarkdownFile empty_md (Inr old_document) ''content/old.md'' ''old'' ''/'' = Inr old_post"
  "processMarkdownFile empty_md (Inr undated_document) ''content/undated.md'' ''undated'' ''/''
     = Inr undated_post"
  by (simp_all add: processMarkdownFile_def old_document_def undated_document_def frontmatter_eval
      empty_md_def old_post_def undated_post_def dated_post_def parse_tags_def
      TrimSuffix_def HasSuffix_def Base_def parse_date_samples)

lemma three_sorted: "sort_Slice newest_first three_posts three_listing"
  by (simp add: sort_Slice_def three_posts_def three_listing_def newest_first_def dated_post_def
      parse_date_samples After_def zeroTime_def)

lemma thirteen_sorted: "sort_Slice newest_first thirteen_posts thirteen_listing"
  by (simp add: sort_Slice_def thirteen_posts_def thirteen_listing_def newest_first_def
      dated_post_def parse_date_samples After_def)

lemma thirteen_not_stable: "\<not> keeps_encounter_order thirteen_posts thirteen_listing"
proof
  assume "keeps_encounter_order thirteen_posts thirteen_listing"
  moreover have "dated_post ''a'' ''2024-01-01'' \<in> set thirteen_posts"
    by (simp add: thirteen_posts_def)
  ultimately have "filter (\<lambda>q. Date q = Date (dated_post ''a'' ''2024-01-01'')) thirteen_listing
     = filter (\<lambda>q. Date q = Date (dated_post ''a'' ''2024-01-01'')) thirteen_posts"
    unfolding keeps_encounter_order_def by blast
  then show False
    by (simp add: thirteen_posts_def thirteen_listing_def dated_post_def parse_date_samples)
qed

lemma sort_Slice_other_orders:
  "sort_Slice newest_first thirteen_posts thirteen_listing
   \<and> \<not> keeps_encounter_order thirteen_posts thirteen_listing
   \<and> time_Parse ''0000-06-01'' = Some \<lparr>year = 0, month = 6, day = 1\<rparr>
   \<and> Date undated_post = zeroTime
   \<and> sort_Slice newest_first [old_post, undated_post] [undated_post, old_post]
   \<and> \<not> sort_Slice newest_first [old_post, undated_post] [old_post, undated_post]"
proof -
  have p: "time_Parse ''0000-06-01'' = Some \<lparr>year = 0, month = 6, day = 1\<rparr>"
    by (simp add: time_Parse_def isDigit_def digit_val_def daysIn_def)
  have z: "Date undated_post = zeroTime"
    by (simp add: undated_post_def dated_post_def parse_date_samples)
  have a: "sort_Slice newest_first [old_post, undated_post] [undated_post, old_post]"
    by (simp add: sort_Slice_def newest_first_def old_post_def undated_post_def dated_post_def
        parse_date_samples After_def zeroTime_def)
  have b: "\<not> sort_Slice newest_first [old_post, undated_post] [old_post, undated_post]"
    by (simp add: sort_Slice_def newest_first_def old_post_def undated_post_def dated_post_def
        parse_date_samples After_def zeroTime_def)
  show ?thesis
    using thirteen_sorted thirteen_not_stable p z a b by blast
qed

section \<open>Properties of the search index\<close>

lemma digit_char_isDigit: "n < 10 \<Longrightarrow> isDigit (digit_char n)"
proof -
  assume "n < 10"
  then have "n \<in> {0, 1, 2, 3, 4, 5, 6, 7, 8, 9}" by auto
  then show ?thesis
    by (auto simp: isDigit_def digit_char_def)
qed

lemma decimal_digits: "list_all isDigit (decimal n)"
proof (induction n rule: decimal.induct)
  case (1 n)
  show ?case
  proof (cases "n < 10")
    case True
    then show ?thesis
      by (simp add: decimal.simps [of n] digit_char_isDigit)
  next
    case False
    then show ?thesis
      using 1 by (simp add: decimal.simps [of n] digit_char_isDigit)
  qed
qed

lemma appendInt_digits: "list_all isDigit (appendInt x w) \<and> w \<le> length (appendInt x w)"
proof -
  have "isDigit (CHR ''0'')"
    by (simp add: isDigit_def)
  then have "list_all isDigit (replicate k (CHR ''0''))" for k
    by (simp add: list_all_iff)
  then show ?thesis
    by (simp add: appendInt_def decimal_digits)
qed

lemma human_date_shape:
  assumes "name \<in> set month_names"
    and "list_all isDigit ds" and "2 \<le> length ds"
    and "list_all isDigit ys" and "4 \<le> length ys"
  shows "human_date (name @ '' '' @ ds @ '', '' @ ys)"
proof -
  have n: "length name = 3"
    using assms(1) by (auto simp: month_names_def)
  have comma: "\<not> isDigit (CHR '','')"
    by (simp add: isDigit_def)
  have d: "\<forall>c \<in> set ds. isDigit c"
    using assms(2) by (simp add: list_all_iff)
  have tw: "takeWhile isDigit (ds @ '', '' @ ys) = ds"
    using d comma by (simp add: takeWhile_append2)
  have dw: "dropWhile isDigit (ds @ '', '' @ ys) = '', '' @ ys"
    using d comma by (simp add: dropWhile_append2)
  have d4: "drop 4 (name @ '' '' @ ds @ '', '' @ ys) = ds @ '', '' @ ys"
    using n by simp
  have d3: "take 1 (drop 3 (name @ '' '' @ ds @ '', '' @ ys)) = '' ''"
    using n by simp
  have t3: "take 3 (name @ '' '' @ ds @ '', '' @ ys) = name"
    using n by simp
  show ?thesis
    unfolding human_date_def Let_def d4 d3 t3 tw dw
    using assms by simp
qed

lemma human_date_Format:
  assumes "valid_time t"
  shows "human_date (time_Format t)"
proof -
  have "month t - 1 < 12"
    using assms by (auto simp: valid_time_def)
  moreover have "length month_names = 12"
    by (simp add: month_names_def)
  ultimately have "month t - 1 < length month_names"
    by simp
  then have "month_names ! (month t - 1) \<in> set month_names"
    by (rule nth_mem)
  then show ?thesis
    unfolding time_Format_def
    using appendInt_digits [of "day t" 2] appendInt_digits [of "year t" 4]
    by (intro human_date_shape) simp_all
qed

lemma time_Parse_valid: "time_Parse v = Some t \<Longrightarrow> valid_time t"
  by (auto simp: time_Parse_def valid_time_def Let_def split: if_splits)

lemma formattedDate_field: "date_field dateStr (formattedDate dateStr)"
proof (cases "time_Parse dateStr")
  case None
  then show ?thesis
    by (simp add: date_field_def formattedDate_def)
next
  case (Some t)
  then have "human_date (time_Format t)"
    using time_Parse_valid human_date_Format by blast
  then show ?thesis
    using Some by (simp add: date_field_def formattedDate_def)
qed

lemma search_index_cases:
  assumes "r \<in> set (search_index md baseURL posts visited)"
  shows "(\<exists>p \<in> set posts. r = post_search_item p)
       \<or> (\<exists>(path, e) \<in> set visited. is_note path \<and> r = note_search_item md baseURL path e)"
  using assms by (auto simp: search_index_def)

lemma post_search_item_fields:
  "dom (post_search_item p) = {''title'', ''url'', ''date'', ''content'', ''type'', ''tags''}"
  "post_search_item p ''type'' = Some ''post''"
  "post_search_item p ''content'' = Some (Content p)"
  "post_search_item p ''tags'' = Some (Join (Tags p) '','')"
  "post_search_item p ''date'' = Some (time_Format (Date p))"
  by (auto simp: post_search_item_def)

lemma note_search_item_fields:
  "dom (note_search_item md baseURL path e) = {''title'', ''url'', ''date'', ''content'', ''type'', ''tags''}"
  "note_search_item md baseURL path e ''type'' = Some ''note''"
  "note_search_item md baseURL path e ''content'' = Some (fst (md (note_body e)))"
  "note_search_item md baseURL path e ''tags'' = Some (Join (note_tags e) '','')"
  "note_search_item md baseURL path e ''date'' = Some (formattedDate (note_date e))"
  by (auto simp: note_search_item_def note_body_def note_tags_def note_date_def split: prod.splits)

text \<open>
  C3, as the code has it. Every record of the search index has exactly the six keys
  \<open>title\<close>, \<open>url\<close>, \<open>date\<close>, \<open>content\<close>, \<open>type\<close> and \<open>tags\<close>. It is the
  record of a post, with the type \<open>post\<close>, the content of the post, its tags joined by
  commas and its formatted date; or the record of a note the walk visits, with the type
  \<open>note\<close>, the whole output of the converter for the body, the tags joined by commas,
  and a date that is empty when the frontmatter has no date, the formatted date when the
  date string parses, and the date string itself when it is not empty and does not parse.
  The posts are taken with dates that are calendar days.
\<close>

theorem search_index_records:
  assumes "r \<in> set (search_index md baseURL posts visited)"
    and "\<forall>p \<in> set posts. valid_time (Date p)"
  shows "dom r = {''title'', ''url'', ''date'', ''content'', ''type'', ''tags''}
       \<and> ((\<exists>p \<in> set posts.
              r ''type'' = Some ''post''
              \<and> r ''content'' = Some (Content p)
              \<and> r ''tags'' = Some (Join (Tags p) '','')
              \<and> r ''date'' = Some (time_Format (Date p))
              \<and> human_date (time_Format (Date p)))
          \<or> (\<exists>(path, e) \<in> set visited.
              is_note path
              \<and> r ''type'' = Some ''note''
              \<and> r ''content'' = Some (fst (md (note_body e)))
              \<and> r ''tags'' = Some (Join (note_tags e) '','')
              \<and> r ''date'' = Some (formattedDate (note_date e))
              \<and> date_field (note_date e) (formattedDate (note_date e))))"
  using search_index_cases [OF assms(1)]
proof
  assume "\<exists>p \<in> set posts. r = post_search_item p"
  then obtain p where p: "p \<in> set posts" "r = post_search_item p"
    by blast
  have "human_date (time_Format (Date p))"
    using assms(2) p(1) human_date_Format by blast
  then show ?thesis
    using p by (auto simp: post_search_item_fields)
next
  assume "\<exists>(path, e) \<in> set visited. is_note path \<and> r = note_search_item md baseURL path e"
  then obtain path e where n: "(path, e) \<in> set visited" "is_note path"
      "r = note_search_item md baseURL path e"
    by blast
  have d: "dom r = {''title'', ''url'', ''date'', ''content'', ''type'', ''tags''}"
    by (simp only: n(3) note_search_item_fields)
  have "is_note path
        \<and> r ''type'' = Some ''note''
        \<and> r ''content'' = Some (fst (md (note_body e)))
        \<and> r ''tags'' = Some (Join (note_tags e) '','')
        \<and> r ''date'' = Some (formattedDate (note_date e))
        \<and> date_field (note_date e) (formattedDate (note_date e))"
    using n(2) by (simp add: n(3) note_search_item_fields formattedDate_field)
  then show ?thesis
    using d n(1) by blast
qed

lemma parseFrontmatter_dated_note:
  "mapget (fst (parseFrontmatter dated_note)) ''date'' = ''2023-10-27''"
  "mapget (fst (parseFrontmatter dated_note)) ''tags'' = ''[go, web]''"
  "mapget (fst (parseFrontmatter dated_note)) ''title'' = ''X''"
  "fst (snd (parseFrontmatter dated_note)) = ''# Hi''"
  by (simp_all add: dated_note_def parseFrontmatter_def SplitN_def delimiter_def HasPrefix_def
      scanner_lines_def dropCR_def MaxScanTokenSize_def parse_line_def TrimSpace_def
      TrimRightSpace_def space_suffix_rev_def asciiSpace_def Let_def mapget_def)

lemma parseFrontmatter_tomorrow_note:
  "mapget (fst (parseFrontmatter tomorrow_note)) ''date'' = ''tomorrow''"
  by (simp_all add: tomorrow_note_def parseFrontmatter_def SplitN_def delimiter_def HasPrefix_def
      scanner_lines_def dropCR_def MaxScanTokenSize_def parse_line_def TrimSpace_def
      TrimRightSpace_def space_suffix_rev_def asciiSpace_def Let_def mapget_def)

lemma is_note_x: "is_note ''notes/x.md''"
  by (simp add: is_note_def HasSuffix_def Base_def)

lemma formattedDate_samples:
  "formattedDate ''2023-10-27'' = ''Oct 27, 2023''"
  "formattedDate ''tomorrow'' = ''tomorrow''"
  by (simp_all add: formattedDate_def time_Parse_def isDigit_def digit_val_def daysIn_def
      time_Format_def month_names_def appendInt_def decimal.simps digit_char_def)

theorem search_index_records_witness:
  "note_search_item sample_md ''/'' ''notes/x.md'' (File ''x.md'' dated_note)
     \<in> set (search_index sample_md ''/'' [dated_post ''p'' ''2024-03-01'']
              [(''notes/x.md'', File ''x.md'' dated_note)])
   \<and> valid_time (Date (dated_post ''p'' ''2024-03-01''))
   \<and> dom (note_search_item sample_md ''/'' ''notes/x.md'' (File ''x.md'' dated_note))
       = {''title'', ''url'', ''date'', ''content'', ''type'', ''tags''}
   \<and> note_search_item sample_md ''/'' ''notes/x.md'' (File ''x.md'' dated_note) ''date''
       = Some ''Oct 27, 2023''"
proof -
  have m: "note_search_item sample_md ''/'' ''notes/x.md'' (File ''x.md'' dated_note)
     \<in> set (search_index sample_md ''/'' [dated_post ''p'' ''2024-03-01'']
              [(''notes/x.md'', File ''x.md'' dated_note)])"
    by (simp add: search_index_def is_note_x)
  have v: "valid_time (Date (dated_post ''p'' ''2024-03-01''))"
    by (simp add: dated_post_def parse_date_samples valid_time_def daysIn_def)
  then have a: "\<forall>p \<in> set [dated_post ''p'' ''2024-03-01'']. valid_time (Date p)"
    by simp
  have d: "note_search_item sample_md ''/'' ''notes/x.md'' (File ''x.md'' dated_note) ''date''
       = Some ''Oct 27, 2023''"
    by (simp add: note_search_item_fields note_date_def read_visited_def
        parseFrontmatter_dated_note formattedDate_samples)
  have k: "dom (note_search_item sample_md ''/'' ''notes/x.md'' (File ''x.md'' dated_note))
       = {''title'', ''url'', ''date'', ''content'', ''type'', ''tags''}"
    using search_index_records [OF m a] by (rule conjunct1)
  show ?thesis
    using m v k d by (intro conjI)
qed

text \<open>
  The claim as the specification words it fails for a note whose date string is not
  empty and is not a date: the record holds the string as it stands. Here the frontmatter
  says \<open>date: tomorrow\<close>.
\<close>

theorem search_index_date_counterexample:
  "map (\<lambda>r. r ''date'')
     (search_index sample_md ''/'' [] [(''notes/x.md'', File ''x.md'' tomorrow_note)])
     = [Some ''tomorrow'']
   \<and> \<not> human_date ''tomorrow''
   \<and> ''tomorrow'' \<noteq> []"
proof -
  have "\<not> human_date ''tomorrow''"
    by (simp add: human_date_def month_names_def)
  then show ?thesis
    by (simp add: search_index_def is_note_x note_search_item_fields note_date_def
        read_visited_def parseFrontmatter_tomorrow_note formattedDate_samples)
qed

section \<open>Properties of the tag index\<close>

lemma tagged_tag_add:
  "tagged (tag_add p m t) k = (if ToLower t = k then tagged m k @ [p] else tagged m k)"
  by (simp add: tag_add_def tagged_def)

lemma count_fold_tags:
  "count_list (tagged (foldl (tag_add p) m ts) k) q
   = count_list (tagged m k) q + (if q = p then count_list (map ToLower ts) k else 0)"
  by (induction ts arbitrary: m) (auto simp: tagged_tag_add)

lemma count_fold_items:
  "count_list (tagged (foldl (\<lambda>m (p, ts). foldl (tag_add p) m ts) m items) k) q
   = count_list (tagged m k) q
     + sum_list (map (\<lambda>(p, ts). if q = p then count_list (map ToLower ts) k else 0) items)"
  by (induction items arbitrary: m) (auto simp: count_fold_tags)

lemma collect_note_tags_filter:
  "collect_note_tags baseURL m visited
   = foldl (\<lambda>m (p, ts). foldl (tag_add p) m ts) m
       (map (\<lambda>(path, e). (tag_note baseURL path e, note_tags e))
          (filter (\<lambda>(path, e). is_note path) visited))"
  unfolding collect_note_tags_def
  by (induction visited arbitrary: m) auto

lemma tagsMap_items:
  "tagsMap (main_site md baseURL posts visited)
   = foldl (\<lambda>m (p, ts). foldl (tag_add p) m ts) Map.empty (tagged_items baseURL posts visited)"
proof -
  have "collect_post_tags m posts
        = foldl (\<lambda>m (p, ts). foldl (tag_add p) m ts) m (map (\<lambda>p. (p, Tags p)) posts)" for m
    unfolding collect_post_tags_def by (induction posts arbitrary: m) auto
  then show ?thesis
    by (simp add: main_site_def tagged_items_def collect_note_tags_filter)
qed

lemma others_count_zero:
  "p \<notin> fst ` set items
   \<Longrightarrow> sum_list (map (\<lambda>(q, ts). if p = q then count_list (map ToLower ts) k else 0) items) = 0"
  by (induction items) auto

lemma tag_add_no_empty:
  "\<forall>k. m k \<noteq> Some [] \<Longrightarrow> \<forall>k. tag_add p m t k \<noteq> Some []"
  by (simp add: tag_add_def)

lemma fold_tags_no_empty:
  "\<forall>k. m k \<noteq> Some [] \<Longrightarrow> \<forall>k. foldl (tag_add p) m ts k \<noteq> Some []"
proof (induction ts arbitrary: m)
  case Nil
  then show ?case by simp
next
  case (Cons t ts)
  show ?case
    using Cons.IH [OF tag_add_no_empty [OF Cons.prems]] by simp
qed

lemma fold_items_no_empty:
  "\<forall>k. m k \<noteq> Some []
   \<Longrightarrow> \<forall>k. foldl (\<lambda>m (p, ts). foldl (tag_add p) m ts) m items k \<noteq> Some []"
proof (induction items arbitrary: m)
  case Nil
  then show ?case by simp
next
  case (Cons item items)
  obtain p ts where i: "item = (p, ts)"
    by (cases item)
  show ?case
    using Cons.IH [OF fold_tags_no_empty [OF Cons.prems, of p ts]] by (simp add: i)
qed

lemma tagsMap_dom:
  "k \<in> dom (tagsMap (main_site md baseURL posts visited))
   \<longleftrightarrow> tagged (tagsMap (main_site md baseURL posts visited)) k \<noteq> []"
proof -
  have "\<forall>k. tagsMap (main_site md baseURL posts visited) k \<noteq> Some []"
    unfolding tagsMap_items by (rule fold_items_no_empty) simp
  then show ?thesis
    by (auto simp: tagged_def split: option.splits)
qed

lemma sort_Slice_count: "sort_Slice lt xs ys \<Longrightarrow> count_list ys x = count_list xs x"
proof -
  assume "sort_Slice lt xs ys"
  then have "count (mset ys) x = count (mset xs) x"
    by (simp add: sort_Slice_def)
  then show ?thesis
    by (simp add: count_mset)
qed

text \<open>
  C9. Take an item that enters the tag index with the tag list \<open>a\<close>, \<open>b\<close>, and
  that no other entry of the index build equals. In the finished index the item stands
  once in the list of the key \<open>a\<close>, once in the list of the key \<open>b\<close>, and in the
  list of no other key; both keys have a page; and on the page of any key, however the
  sort arranges it, the item stands once for \<open>a\<close> and \<open>b\<close> and not at all for any
  other key.
\<close>

theorem tag_index_a_b:
  assumes "tagged_items baseURL posts visited = before @ (p, [''a'', ''b'']) # after"
    and "p \<notin> fst ` set before" and "p \<notin> fst ` set after"
  shows "count_list (tagged (tagsMap (main_site md baseURL posts visited)) k) p
           = (if k = ''a'' \<or> k = ''b'' then 1 else 0)
       \<and> ''a'' \<in> dom (tagsMap (main_site md baseURL posts visited))
       \<and> ''b'' \<in> dom (tagsMap (main_site md baseURL posts visited))
       \<and> (tag_page (main_site md baseURL posts visited) k ys
            \<longrightarrow> count_list ys p = (if k = ''a'' \<or> k = ''b'' then 1 else 0))"
proof -
  let ?idx = "tagsMap (main_site md baseURL posts visited)"
  have low: "map ToLower [''a'', ''b''] = [''a'', ''b'']"
    by (simp add: ToLower_def lower_char_def)
  have c: "count_list (tagged ?idx k) p = (if k = ''a'' \<or> k = ''b'' then 1 else 0)" for k
  proof -
    let ?f = "\<lambda>(q, ts). if p = q then count_list (map ToLower ts) k else 0"
    have "count_list (tagged ?idx k) p
          = count_list (tagged Map.empty k) p
            + sum_list (map ?f (before @ (p, [''a'', ''b'']) # after))"
      by (simp only: tagsMap_items assms(1) count_fold_items)
    also have "\<dots> = sum_list (map ?f before) + ?f (p, [''a'', ''b'']) + sum_list (map ?f after)"
      by (simp add: tagged_def)
    also have "\<dots> = count_list (map ToLower [''a'', ''b'']) k"
      by (simp only: others_count_zero [OF assms(2)] others_count_zero [OF assms(3)]) simp
    also have "\<dots> = (if k = ''a'' \<or> k = ''b'' then 1 else 0)"
      unfolding low by auto
    finally show ?thesis .
  qed
  have a: "''a'' \<in> dom ?idx"
    using c [of "''a''"] unfolding tagsMap_dom by auto
  have b: "''b'' \<in> dom ?idx"
    using c [of "''b''"] unfolding tagsMap_dom by auto
  have "count_list ys p = (if k = ''a'' \<or> k = ''b'' then 1 else 0)"
    if "tag_page (main_site md baseURL posts visited) k ys"
    using that sort_Slice_count c [of k] unfolding tag_page_def by metis
  then show ?thesis
    using c a b by blast
qed

lemma ab_note_meta:
  "mapget (fst (parseFrontmatter ab_note)) ''tags'' = ''['' @ [DQ] @ ''a'' @ [DQ] @ '','' @ [DQ] @ ''b'' @ [DQ] @ '']''"
  "mapget (fst (parseFrontmatter ab_note)) ''title'' = []"
  "mapget (fst (parseFrontmatter ab_note)) ''description'' = []"
  "mapget (fst (parseFrontmatter ab_note)) ''date'' = []"
  by (simp_all add: ab_note_def frontmatter_eval)

lemma bc_note_meta:
  "mapget (fst (parseFrontmatter bc_note)) ''tags'' = ''B, c''"
  "mapget (fst (parseFrontmatter bc_note)) ''title'' = []"
  "mapget (fst (parseFrontmatter bc_note)) ''description'' = []"
  "mapget (fst (parseFrontmatter bc_note)) ''date'' = []"
  by (simp_all add: bc_note_def frontmatter_eval)

lemma two_notes_tags:
  "note_tags (File ''x.md'' ab_note) = [''a'', ''b'']"
  "note_tags (File ''y.md'' bc_note) = [''B'', ''c'']"
  by (simp_all add: note_tags_def read_visited_def ab_note_meta bc_note_meta parse_tags_def
      Trim_def RemoveAll_def Split_def SplitN_def HasPrefix_def TrimSpace_def TrimRightSpace_def
      space_suffix_rev_def asciiSpace_def)

lemma tag_note_fst:
  "tag_note baseURL path e =
     \<lparr>Title = note_title (fst (parseFrontmatter (read_visited e))) e,
      Description = mapget (fst (parseFrontmatter (read_visited e))) ''description'',
      Date = parse_date (mapget (fst (parseFrontmatter (read_visited e))) ''date''),
      Tags = [], Content = [], URL = note_url baseURL path, Slug = []\<rparr>"
  by (simp add: tag_note_def split: prod.splits)

lemma two_notes_items:
  "tag_note ''/'' ''notes/x.md'' (File ''x.md'' ab_note) = x_item"
  "tag_note ''/'' ''notes/y.md'' (File ''y.md'' bc_note) = y_item"
  by (simp_all add: tag_note_fst read_visited_def ab_note_meta bc_note_meta note_title_def
      note_url_def Rel_notes_def TrimSuffix_def HasSuffix_def parse_date_samples
      x_item_def y_item_def)

lemma two_notes_tagged_items:
  "tagged_items ''/'' [] two_notes = [] @ (x_item, [''a'', ''b'']) # [(y_item, [''B'', ''c''])]"
  by (simp add: tagged_items_def two_notes_def is_note_def HasSuffix_def Base_def
      two_notes_items two_notes_tags)

theorem tag_index_a_b_witness:
  "tagged_items ''/'' [] two_notes = [] @ (x_item, [''a'', ''b'']) # [(y_item, [''B'', ''c''])]
   \<and> x_item \<notin> fst ` set []
   \<and> x_item \<notin> fst ` set [(y_item, [''B'', ''c''])]
   \<and> count_list (tagged (tagsMap (main_site sample_md ''/'' [] two_notes)) ''b'') x_item = 1
   \<and> count_list (tagged (tagsMap (main_site sample_md ''/'' [] two_notes)) ''c'') x_item = 0
   \<and> ''a'' \<in> dom (tagsMap (main_site sample_md ''/'' [] two_notes))
   \<and> ''b'' \<in> dom (tagsMap (main_site sample_md ''/'' [] two_notes))"
proof -
  have n: "x_item \<notin> fst ` set []"
    by simp
  have o: "x_item \<notin> fst ` set [(y_item, [''B'', ''c''])]"
    by (simp add: x_item_def y_item_def)
  have b: "count_list (tagged (tagsMap (main_site sample_md ''/'' [] two_notes)) ''b'') x_item = 1"
    using tag_index_a_b [OF two_notes_tagged_items n o, of sample_md "''b''"] by simp
  have c: "count_list (tagged (tagsMap (main_site sample_md ''/'' [] two_notes)) ''c'') x_item = 0"
    using tag_index_a_b [OF two_notes_tagged_items n o, of sample_md "''c''"] by simp
  have d: "''a'' \<in> dom (tagsMap (main_site sample_md ''/'' [] two_notes))
           \<and> ''b'' \<in> dom (tagsMap (main_site sample_md ''/'' [] two_notes))"
    using tag_index_a_b [OF two_notes_tagged_items n o, of sample_md "''b''"] by simp
  show ?thesis
    using two_notes_tagged_items n o b c d by (intro conjI) simp_all
qed

lemma two_notes_pages:
  "map Title (tagged (tagsMap (main_site sample_md ''/'' [] two_notes)) ''a'') = [''x.md'']
   \<and> map Title (tagged (tagsMap (main_site sample_md ''/'' [] two_notes)) ''b'') = [''x.md'', ''y.md'']
   \<and> map Title (tagged (tagsMap (main_site sample_md ''/'' [] two_notes)) ''c'') = [''y.md'']
   \<and> dom (tagsMap (main_site sample_md ''/'' [] two_notes)) = {''a'', ''b'', ''c''}"
  unfolding tagsMap_items two_notes_tagged_items
  by (auto simp: tag_add_def tagged_def ToLower_def lower_char_def x_item_def y_item_def
      split: if_splits)

end
